theory Spec2Isabelle
  imports Complex_Main "HOL-Library.AList" "HOL-Library.Word"
begin

section \<open>The reconciliation pipeline of the chaindata squid (src/processor.ts)\<close>

text \<open>
  The pipeline is the list \<^verbatim>\<open>processorSteps\<close> of processor.ts, run in order on every
  eligible block. Every step reads and writes the entity store; the remote world (the
  config feed, the RPC endpoints, the price feed) is read through request functions.

  The embedding is shallow. The entity store is a record of three tables, each an
  association list from the primary key to the entity (\<open>find\<close> returns the rows in table
  order, \<open>save\<close> is an upsert by primary key, \<open>delete\<close> removes by key). Relations are
  stored as the id of the entity they point to. The remote world is a record of
  functions (\<open>Remote\<close>): the same function stands for "the same upstream answers".
  An \<open>await Promise.all(xs.map(f))\<close> and the bounded \<open>pMap\<close> are run in list order.
  A JavaScript property that may be \<open>undefined\<close> or \<open>null\<close> is an \<open>option\<close>.
\<close>

subsection \<open>JavaScript values\<close>

text \<open>Truthiness of an optional string and of an optional number (\<open>x || y\<close>, \<open>x ? a : b\<close>).\<close>

definition truthyStr :: "string option \<Rightarrow> bool" where
  "truthyStr s = (case s of None \<Rightarrow> False | Some x \<Rightarrow> x \<noteq> [])"

definition truthyNum :: "int option \<Rightarrow> bool" where
  "truthyNum n = (case n of None \<Rightarrow> False | Some x \<Rightarrow> x \<noteq> 0)"

text \<open>\<open>b || false\<close> for an optional boolean.\<close>

definition orFalse :: "bool option \<Rightarrow> bool" where
  "orFalse b = (case b of None \<Rightarrow> False | Some x \<Rightarrow> x)"

text \<open>\<open>n.toString(10)\<close> for an integer.\<close>

fun digits10 :: "nat \<Rightarrow> string" where
  "digits10 n =
     (if n < 10 then [''0123456789'' ! n]
      else digits10 (n div 10) @ [''0123456789'' ! (n mod 10)])"

definition toString10 :: "int \<Rightarrow> string" where
  "toString10 i = (if i < 0 then CHR ''-'' # digits10 (nat (- i)) else digits10 (nat i))"

subsection \<open>Entities\<close>

text \<open>The embedded RPC records: a URL and a health flag.\<close>

record SubstrateRpc =
  s_url :: string
  s_isHealthy :: bool

record EthereumRpc =
  e_url :: string
  e_isHealthy :: bool

text \<open>
  The Chain entity of model/generated/chain.model.ts, column by column. The relations
  \<open>nativeToken\<close> and \<open>relay\<close> hold the id of their target; the inverse sides (\<open>tokens\<close>,
  \<open>evmNetworks\<close>, \<open>parathreads\<close>) are not columns and are computed from the other tables.
\<close>

record Chain =
  c_id :: string
  c_isTestnet :: bool
  c_sortIndex :: "int option"
  c_genesisHash :: "string option"
  c_prefix :: "int option"
  c_name :: "string option"
  c_chainName :: "string option"
  c_implName :: "string option"
  c_specName :: "string option"
  c_specVersion :: "string option"
  c_nativeToken :: "string option"
  c_tokensCurrencyIdIndex :: "int option"
  c_account :: "string option"
  c_subscanUrl :: "string option"
  c_rpcs :: "SubstrateRpc list"
  c_isHealthy :: bool
  c_paraId :: "int option"
  c_relay :: "string option"

text \<open>
  Modelled from the spec: the EvmNetwork entity (model/generated/evmNetwork.model.ts is not
  under src/), with the fields processor.ts reads and writes. The id is absent on an entity
  that was just constructed, until a probe returns one.
\<close>

record EvmNetwork =
  n_id :: "string option"
  n_isTestnet :: bool
  n_sortIndex :: "int option"
  n_name :: "string option"
  n_explorerUrl :: "string option"
  n_rpcs :: "EthereumRpc list"
  n_isHealthy :: bool
  n_substrateChain :: "string option"
  n_nativeToken :: "string option"

text \<open>
  Modelled from the spec: the Token entity and its three variants (token.model.ts and the
  variant classes are not under src/). \<open>squidImplementationDetail\<close> is the variant object,
  tagged by \<open>isTypeOf\<close>; a field a variant does not carry, or that was never set, is \<open>None\<close>.
  \<open>TokenRates\<close> is the quote per currency code.
\<close>

datatype TokenKind = NativeToken | OrmlToken | Erc20Token

type_synonym TokenRates = "(string \<times> real option) list"

record TokenDetail =
  d_isTypeOf :: TokenKind
  d_id :: string
  d_isTestnet :: bool
  d_symbol :: "string option"
  d_decimals :: "int option"
  d_coingeckoId :: "string option"
  d_rates :: "TokenRates option"
  d_existentialDeposit :: "int option"
  d_stateKey :: "string option"
  d_contractAddress :: "string option"
  d_chain :: "string option"
  d_evmNetwork :: "string option"

record Token =
  t_id :: string
  t_squidImplementationDetail :: TokenDetail
  t_squidImplementationDetailChain :: "string option"
  t_squidImplementationDetailEvmNetwork :: "string option"

subsection \<open>The entity store\<close>

record Store =
  chains :: "(string \<times> Chain) list"
  evmNetworks :: "(string \<times> EvmNetwork) list"
  tokens :: "(string \<times> Token) list"

definition emptyStore :: Store where
  "emptyStore = \<lparr>chains = [], evmNetworks = [], tokens = []\<rparr>"

text \<open>\<open>store.delete(Entity, ids)\<close> on one table.\<close>

definition deleteIds :: "string list \<Rightarrow> (string \<times> 'a) list \<Rightarrow> (string \<times> 'a) list" where
  "deleteIds ids tbl = filter (\<lambda>p. fst p \<notin> set ids) tbl"

definition saveChain :: "Chain \<Rightarrow> Store \<Rightarrow> Store" where
  "saveChain c st = st\<lparr>chains := AList.update (c_id c) c (chains st)\<rparr>"

definition saveTokenEntity :: "Token \<Rightarrow> Store \<Rightarrow> Store" where
  "saveTokenEntity t st = st\<lparr>tokens := AList.update (t_id t) t (tokens st)\<rparr>"

text \<open>
  Saving an EVM network writes the row of its id; the callers only save networks that
  have one (an entity without an id is filtered out before \<open>store.save\<close>).
\<close>

definition saveEvmNetwork :: "EvmNetwork \<Rightarrow> Store \<Rightarrow> Store" where
  "saveEvmNetwork n st =
     (case n_id n of
        None \<Rightarrow> st
      | Some i \<Rightarrow> st\<lparr>evmNetworks := AList.update i n (evmNetworks st)\<rparr>)"

text \<open>
  A table is well formed when its keys are distinct and every row is stored under its own
  id (the primary key column); a store is well formed when its three tables are.
\<close>

definition wfTable :: "('a \<Rightarrow> string option) \<Rightarrow> (string \<times> 'a) list \<Rightarrow> bool" where
  "wfTable key tbl = (distinct (map fst tbl) \<and> (\<forall>p \<in> set tbl. key (snd p) = Some (fst p)))"

definition wfStore :: "Store \<Rightarrow> bool" where
  "wfStore st =
     (wfTable (\<lambda>c. Some (c_id c)) (chains st) \<and>
      wfTable n_id (evmNetworks st) \<and>
      wfTable (\<lambda>t. Some (t_id t)) (tokens st))"

text \<open>\<open>new Chain()\<close> with only the id set: no column has a value yet.\<close>

definition newChain :: "string \<Rightarrow> Chain" where
  "newChain i =
     \<lparr>c_id = i, c_isTestnet = False, c_sortIndex = None, c_genesisHash = None,
      c_prefix = None, c_name = None, c_chainName = None, c_implName = None,
      c_specName = None, c_specVersion = None, c_nativeToken = None,
      c_tokensCurrencyIdIndex = None, c_account = None, c_subscanUrl = None,
      c_rpcs = [], c_isHealthy = False, c_paraId = None, c_relay = None\<rparr>"

definition newEvmNetwork :: EvmNetwork where
  "newEvmNetwork =
     \<lparr>n_id = None, n_isTestnet = False, n_sortIndex = None, n_name = None,
      n_explorerUrl = None, n_rpcs = [], n_isHealthy = False,
      n_substrateChain = None, n_nativeToken = None\<rparr>"

definition newTokenDetail :: "TokenKind \<Rightarrow> string \<Rightarrow> TokenDetail" where
  "newTokenDetail k i =
     \<lparr>d_isTypeOf = k, d_id = i, d_isTestnet = False, d_symbol = None, d_decimals = None,
      d_coingeckoId = None, d_rates = None, d_existentialDeposit = None,
      d_stateKey = None, d_contractAddress = None, d_chain = None, d_evmNetwork = None\<rparr>"

text \<open>
  Modelled from the spec: \<open>getOrCreate\<close>, \<open>getOrCreateToken\<close> and \<open>saveToken\<close> of helpers.ts
  (not under src/). \<open>getOrCreate\<close> fetches the entity of an id or constructs one with that
  id, without saving it. \<open>getOrCreateToken\<close> returns the variant object of the token of
  that id when it is of the requested variant, and a new object of that variant otherwise.
  \<open>saveToken\<close> stores the variant object in the token entity of its id, with the anchor
  relations of the entity set from the object's \<open>chain\<close> and \<open>evmNetwork\<close>.
\<close>

definition getOrCreateChain :: "Store \<Rightarrow> string \<Rightarrow> Chain" where
  "getOrCreateChain st i =
     (case map_of (chains st) i of None \<Rightarrow> newChain i | Some c \<Rightarrow> c)"

definition getOrCreateToken :: "Store \<Rightarrow> TokenKind \<Rightarrow> string \<Rightarrow> TokenDetail" where
  "getOrCreateToken st k i =
     (case map_of (tokens st) i of
        None \<Rightarrow> newTokenDetail k i
      | Some t \<Rightarrow>
          if d_isTypeOf (t_squidImplementationDetail t) = k
          then (t_squidImplementationDetail t)\<lparr>d_id := i\<rparr>
          else newTokenDetail k i)"

definition saveToken :: "TokenDetail \<Rightarrow> Store \<Rightarrow> Store" where
  "saveToken d st =
     saveTokenEntity
       \<lparr>t_id = d_id d,
        t_squidImplementationDetail = d,
        t_squidImplementationDetailChain = d_chain d,
        t_squidImplementationDetailEvmNetwork = d_evmNetwork d\<rparr>
       st"

subsection \<open>The config feed\<close>

text \<open>
  Modelled from the spec: the record types of types.ts (not under src/), with the fields
  processor.ts reads. \<open>gc_relay\<close> is \<open>relay?.id\<close>.
\<close>

record GithubChain =
  gc_id :: string
  gc_isTestnet :: "bool option"
  gc_name :: "string option"
  gc_account :: "string option"
  gc_subscanUrl :: "string option"
  gc_rpcs :: "string list option"
  gc_paraId :: "int option"
  gc_relay :: "string option"

record GithubEvmNetwork =
  gn_name :: "string option"
  gn_substrateChainId :: "string option"
  gn_isTestnet :: "bool option"
  gn_explorerUrl :: "string option"
  gn_rpcs :: "string list option"
  gn_symbol :: "string option"
  gn_decimals :: "int option"

record GithubToken =
  gt_id :: "string option"
  gt_symbol :: "string option"
  gt_decimals :: "int option"
  gt_coingeckoId :: "string option"
  gt_contractAddress :: "string option"
  gt_evmNetworkId :: "string option"

text \<open>\<open>processorSharedData\<close>: the lists the first step fetched, read by the later steps.\<close>

record SharedData =
  githubChains :: "GithubChain list"
  githubEvmNetworks :: "GithubEvmNetwork list"
  githubTokens :: "GithubToken list"

subsection \<open>Step 2: updateChainsFromGithub\<close>

text \<open>The values one iteration of the loop writes into the chain of a feed record.\<close>

definition applyGithubChain :: "Store \<Rightarrow> GithubChain \<Rightarrow> Chain" where
  "applyGithubChain st g =
     (let chain = getOrCreateChain st (gc_id g);
          relay = (case gc_relay g of
                     None \<Rightarrow> None
                   | Some r \<Rightarrow> if r \<noteq> [] then map_option c_id (map_of (chains st) r) else None)
      in chain
          \<lparr>c_isTestnet := orFalse (gc_isTestnet g),
           c_name := gc_name g,
           c_account := gc_account g,
           c_subscanUrl := gc_subscanUrl g,
           c_rpcs := map (\<lambda>u. \<lparr>s_url = u, s_isHealthy = False\<rparr>)
                       (case gc_rpcs g of None \<Rightarrow> [] | Some us \<Rightarrow> us),
           c_paraId := (if relay \<noteq> None \<and> truthyNum (gc_paraId g) then gc_paraId g else None),
           c_relay := (if relay \<noteq> None \<and> truthyNum (gc_paraId g) then relay else None)\<rparr>)"



text \<open>
  One iteration: the id leaves the deletion map, the chain is fetched or created, set and
  saved. The state of the loop is the deletion map (its keys) and the store.
\<close>

definition chainsLoopBody :: "string list \<times> Store \<Rightarrow> GithubChain \<Rightarrow> string list \<times> Store" where
  "chainsLoopBody acc g =
     (removeAll (gc_id g) (fst acc), saveChain (applyGithubChain (snd acc) g) (snd acc))"

definition updateChainsFromGithub :: "SharedData \<Rightarrow> Store \<Rightarrow> Store" where
  "updateChainsFromGithub sh st =
     (let deletedChainIdsMap = map fst (chains st);
          acc = foldl chainsLoopBody (deletedChainIdsMap, st) (githubChains sh);
          deletedChainIds = fst acc
      in if length deletedChainIds > 0
         then (snd acc)\<lparr>chains := deleteIds deletedChainIds (chains (snd acc))\<rparr>
         else snd acc)"

subsection \<open>The remote world and the helpers\<close>

text \<open>
  What one extraction attempt reads over the RPC connection and decodes from the metadata:
  the genesis hash, the runtime version, the chain name, the chain properties (a token
  symbol and a decimals value may each be one value or an array), the registry's ss58
  prefix, the variants (name and index) of the \<open>CurrencyId\<close> and \<open>TokenSymbol\<close> types, and
  the existential deposit. The metadata decoder is a library; its outputs are taken as read.
\<close>

datatype 'a oneOrMany = One 'a | Many "'a list"

record RpcData =
  r_genesisHash :: "string option"
  r_specName :: "string option"
  r_specVersion :: "string option"
  r_implName :: "string option"
  r_chainName :: "string option"
  r_ss58Format :: "int option"
  r_tokenDecimals :: "int oneOrMany option"
  r_tokenSymbol :: "string oneOrMany option"
  r_ss58Prefix :: "int option"
  r_currencyIdVariants :: "(string \<times> nat) list"
  r_tokenSymbolVariants :: "(string \<times> nat) list"
  r_existentialDeposit :: "int option"

text \<open>
  The answer of an endpoint to \<open>eth_chainId\<close>: the HTTP status and \<open>parseInt\<close> of the result
  (\<open>None\<close> when it is NaN).
\<close>

record EvmResponse =
  er_status :: int
  er_result :: "int option"

text \<open>
  The remote world. A feed that cannot be fetched is \<open>None\<close>, and so is a request that
  throws or times out. \<open>rpcData url attempt\<close> is what the attempt of that number reads from
  the endpoint; \<open>simplePrice ids currencies\<close> is the price feed's answer.
\<close>

record Remote =
  feedChains :: "GithubChain list option"
  feedTestnetChains :: "GithubChain list option"
  feedEvmNetworks :: "GithubEvmNetwork list option"
  feedTokens :: "GithubToken list option"
  chainGetBlockHash :: "string \<Rightarrow> bool"
  rpcData :: "string \<Rightarrow> nat \<Rightarrow> RpcData option"
  ethChainId :: "string \<Rightarrow> EvmResponse option"
  simplePrice :: "string list \<Rightarrow> string list \<Rightarrow> (string \<times> (string \<times> real) list) list option"

text \<open>
  The functions of helpers.ts that processor.ts calls and that are not under src/ are
  parameters of the model: the three id functions, the storage key hash, the per-chain
  overrides and the ordering of chains and networks.
\<close>

record Workarounds =
  w_symbols :: "string list option"
  w_decimals :: "int list option"
  w_stateKeys :: "(string \<times> string) list option"

record Helpers =
  nativeTokenId :: "string \<Rightarrow> string option \<Rightarrow> string"
  ormlTokenId :: "string \<Rightarrow> string \<Rightarrow> string"
  erc20TokenId :: "string \<Rightarrow> string \<Rightarrow> string"
  twox64Concat :: "8 word list \<Rightarrow> string"
  tokenSymbolWorkarounds :: "string \<Rightarrow> Workarounds option"
  sortChainsAndNetworks :: "Chain list \<Rightarrow> EvmNetwork list \<Rightarrow> (Chain + EvmNetwork) list"

text \<open>\<open>Object.fromEntries\<close>: a later entry of a key replaces the earlier one.\<close>

definition fromEntries :: "('k \<times> 'v) list \<Rightarrow> ('k \<times> 'v) list" where
  "fromEntries xs = foldl (\<lambda>m p. AList.update (fst p) (snd p) m) [] xs"

text \<open>\<open>xs.entries()\<close>: the elements with their indices.\<close>

definition entries :: "'a list \<Rightarrow> (nat \<times> 'a) list" where
  "entries xs = zip [0..<length xs] xs"

subsection \<open>Step 3: updateChainData\<close>

text \<open>The health probe of the endpoints of a chain: one \<open>chain_getBlockHash\<close> request each.\<close>

definition probeRpcs :: "Remote \<Rightarrow> Chain \<Rightarrow> Chain" where
  "probeRpcs rm chain =
     chain\<lparr>c_rpcs := map (\<lambda>rpc. rpc\<lparr>s_isHealthy := chainGetBlockHash rm (s_url rpc)\<rparr>)
                        (c_rpcs chain)\<rparr>"

definition tokenSymbolOf :: "Helpers \<Rightarrow> string \<Rightarrow> RpcData \<Rightarrow> string oneOrMany option" where
  "tokenSymbolOf h cid d =
     (case tokenSymbolWorkarounds h cid of
        None \<Rightarrow> r_tokenSymbol d
      | Some w \<Rightarrow> (case w_symbols w of None \<Rightarrow> r_tokenSymbol d | Some xs \<Rightarrow> Some (Many xs)))"

definition tokenDecimalsOf :: "Helpers \<Rightarrow> string \<Rightarrow> RpcData \<Rightarrow> int oneOrMany option" where
  "tokenDecimalsOf h cid d =
     (case tokenSymbolWorkarounds h cid of
        None \<Rightarrow> r_tokenDecimals d
      | Some w \<Rightarrow> (case w_decimals w of None \<Rightarrow> r_tokenDecimals d | Some xs \<Rightarrow> Some (Many xs)))"

definition tokensCurrencyIdIndexOf :: "RpcData \<Rightarrow> nat option" where
  "tokensCurrencyIdIndexOf d = map_of (fromEntries (r_currencyIdVariants d)) ''Token''"

definition tokenStateKeyLookup :: "Helpers \<Rightarrow> RpcData \<Rightarrow> (string \<times> string) list" where
  "tokenStateKeyLookup h d =
     fromEntries
       (map (\<lambda>p. (fst p,
                  twox64Concat h
                    [of_nat (case tokensCurrencyIdIndexOf d of None \<Rightarrow> 0 | Some i \<Rightarrow> i),
                     of_nat (snd p)]))
          (r_tokenSymbolVariants d))"

definition tokenStateKeysOf :: "Helpers \<Rightarrow> string \<Rightarrow> RpcData \<Rightarrow> (string \<times> string) list" where
  "tokenStateKeysOf h cid d =
     (case tokenSymbolWorkarounds h cid of
        None \<Rightarrow> tokenStateKeyLookup h d
      | Some w \<Rightarrow> (case w_stateKeys w of None \<Rightarrow> tokenStateKeyLookup h d | Some ks \<Rightarrow> ks))"

text \<open>\<open>tokenDecimals[index]\<close> on a defined value: a number has no elements.\<close>

definition decimalsAt :: "int oneOrMany \<Rightarrow> nat \<Rightarrow> int option" where
  "decimalsAt ds i =
     (case ds of One n \<Rightarrow> None | Many xs \<Rightarrow> if i < length xs then Some (xs ! i) else None)"

text \<open>
  The loop over the symbols of the chain. Its state is the map of the tokens still to
  delete (its keys) and the store. \<open>tokenDecimals[index]\<close> throws when the decimals are
  undefined: the result is then \<open>Inl\<close> of the store at that moment.
\<close>

fun ormlTokensLoop ::
  "Helpers \<Rightarrow> string \<Rightarrow> (string \<times> string) list \<Rightarrow> int oneOrMany option \<Rightarrow>
   (nat \<times> string) list \<Rightarrow> string list \<times> Store \<Rightarrow> Store + string list \<times> Store" where
  "ormlTokensLoop h cid tokenStateKeys tokenDecimals [] acc = Inr acc"
| "ormlTokensLoop h cid tokenStateKeys tokenDecimals (e # rest) acc =
     (case map_of tokenStateKeys (snd e) of
        None \<Rightarrow> ormlTokensLoop h cid tokenStateKeys tokenDecimals rest acc
      | Some stateKey \<Rightarrow>
          (let token = getOrCreateToken (snd acc) OrmlToken (ormlTokenId h cid (snd e));
               deletedTokensMap = removeAll (d_id token) (fst acc)
           in case tokenDecimals of
                None \<Rightarrow> Inl (snd acc)
              | Some ds \<Rightarrow>
                  ormlTokensLoop h cid tokenStateKeys tokenDecimals rest
                    (deletedTokensMap,
                     saveToken
                       (token\<lparr>d_symbol := Some (snd e),
                              d_decimals := decimalsAt ds (fst e),
                              d_stateKey := Some stateKey,
                              d_chain := Some cid\<rparr>)
                       (snd acc))))"

text \<open>
  The body of the \<open>try\<close> after the RPC data arrived. \<open>Inr\<close> is the store when the body ran to
  its \<open>return\<close>, \<open>Inl\<close> the store when it threw.
\<close>

definition fetchChainData :: "Helpers \<Rightarrow> Chain \<Rightarrow> RpcData \<Rightarrow> Store \<Rightarrow> Store + Store" where
  "fetchChainData h chain d st =
     (let cid = c_id chain;
          tokenSymbol = tokenSymbolOf h cid d;
          tokenDecimals = tokenDecimalsOf h cid d;
          tokenStateKeys = tokenStateKeysOf h cid d;
          existingTokens =
            filter (\<lambda>t. d_isTypeOf (t_squidImplementationDetail t) = OrmlToken)
              (filter (\<lambda>t. t_squidImplementationDetailChain t = Some cid) (map snd (tokens st)));
          deletedTokensMap = map fst (fromEntries (map (\<lambda>t. (t_id t, t)) existingTokens))
      in case ormlTokensLoop h cid tokenStateKeys tokenDecimals
                (entries (case tokenSymbol of Some (Many xs) \<Rightarrow> xs | _ \<Rightarrow> []))
                (deletedTokensMap, st) of
           Inl st1 \<Rightarrow> Inl st1
         | Inr acc \<Rightarrow>
            (let st2 = (snd acc)\<lparr>tokens := deleteIds (fst acc) (tokens (snd acc))\<rparr>;
                 chain1 = getOrCreateChain st2 cid;
                 nativeTokenSymbol =
                   (case tokenSymbol of
                      None \<Rightarrow> None
                    | Some (One s) \<Rightarrow> Some s
                    | Some (Many xs) \<Rightarrow> (case xs of [] \<Rightarrow> None | x # _ \<Rightarrow> Some x));
                 nativeToken =
                   getOrCreateToken st2 NativeToken (nativeTokenId h (c_id chain1) nativeTokenSymbol);
                 st3 = saveToken
                         (nativeToken
                            \<lparr>d_symbol := nativeTokenSymbol,
                             d_decimals :=
                               (case tokenDecimals of
                                  None \<Rightarrow> None
                                | Some (One n) \<Rightarrow> Some n
                                | Some (Many xs) \<Rightarrow> (case xs of [] \<Rightarrow> None | x # _ \<Rightarrow> Some x)),
                             d_existentialDeposit := r_existentialDeposit d\<rparr>)
                         st2
             in Inr (saveChain
                       (chain1
                          \<lparr>c_genesisHash := r_genesisHash d,
                           c_prefix :=
                             (case r_ss58Prefix d of
                                Some n \<Rightarrow> Some n
                              | None \<Rightarrow> (case r_ss58Format d of Some n \<Rightarrow> Some n | None \<Rightarrow> Some 42)),
                           c_chainName := r_chainName d,
                           c_implName := r_implName d,
                           c_specName := r_specName d,
                           c_specVersion := r_specVersion d,
                           c_nativeToken := Some (d_id nativeToken)\<rparr>)
                       st3)))"




text \<open>
  One attempt of the retry loop, of number \<open>attempt\<close> (from 1): the endpoint it connects to,
  and its outcome on a store. \<open>Inr\<close> is the store when the \<open>try\<close> ran to its \<open>return\<close>; \<open>Inl\<close>
  is the store when it threw (the request failed or timed out, or the body threw).
\<close>

definition attemptUrl :: "string list \<Rightarrow> nat \<Rightarrow> string" where
  "attemptUrl healthyRpcUrls attempt = healthyRpcUrls ! ((attempt - 1) mod length healthyRpcUrls)"

definition attemptOutcome ::
  "Helpers \<Rightarrow> Remote \<Rightarrow> Chain \<Rightarrow> string list \<Rightarrow> Store \<Rightarrow> nat \<Rightarrow> Store + Store" where
  "attemptOutcome h rm chain healthyRpcUrls st attempt =
     (case rpcData rm (attemptUrl healthyRpcUrls attempt) attempt of
        None \<Rightarrow> Inl st
      | Some d \<Rightarrow> fetchChainData h chain d st)"

text \<open>
  The retry loop \<open>for (attempt = 1; attempt <= maxAttempts; attempt += 1)\<close>, over the attempt
  numbers still to run. The result is the list of the endpoints a connection was opened
  to, in order, and the outcome: \<open>Inr\<close> the store after the attempt that returned, \<open>Inl\<close>
  the store when the loop ran out of attempts.
\<close>

fun attemptsLoop ::
  "Helpers \<Rightarrow> Remote \<Rightarrow> Chain \<Rightarrow> string list \<Rightarrow> nat list \<Rightarrow> Store \<Rightarrow>
   string list \<times> (Store + Store)" where
  "attemptsLoop h rm chain healthyRpcUrls [] st = ([], Inl st)"
| "attemptsLoop h rm chain healthyRpcUrls (attempt # rest) st =
     (case attemptOutcome h rm chain healthyRpcUrls st attempt of
        Inr st1 \<Rightarrow> ([attemptUrl healthyRpcUrls attempt], Inr st1)
      | Inl st1 \<Rightarrow>
          (let r = attemptsLoop h rm chain healthyRpcUrls rest st1
           in (attemptUrl healthyRpcUrls attempt # fst r, snd r)))"

text \<open>
  The mapper of \<open>pMap\<close> for one chain: probe the endpoints, save the health, run the retry
  loop, and mark the chain unhealthy when the loop ran out of attempts. The result is
  the list of the endpoints the retry loop connected to and the store.
\<close>

definition healthyRpcUrlsOf :: "Remote \<Rightarrow> Chain \<Rightarrow> string list" where
  "healthyRpcUrlsOf rm chain0 = map s_url (filter s_isHealthy (c_rpcs (probeRpcs rm chain0)))"

definition healthChecked :: "Remote \<Rightarrow> Chain \<Rightarrow> Chain" where
  "healthChecked rm chain0 =
     (probeRpcs rm chain0)\<lparr>c_isHealthy := length (healthyRpcUrlsOf rm chain0) > 0\<rparr>"

definition updateChain :: "Helpers \<Rightarrow> Remote \<Rightarrow> Store \<Rightarrow> Chain \<Rightarrow> string list \<times> Store" where
  "updateChain h rm st chain0 =
     (let healthyRpcUrls = healthyRpcUrlsOf rm chain0;
          chain = healthChecked rm chain0;
          st1 = saveChain chain st;
          maxAttempts = length healthyRpcUrls * 2;
          r = attemptsLoop h rm chain healthyRpcUrls [1..<maxAttempts + 1] st1
      in case snd r of
           Inr st2 \<Rightarrow> (fst r, st2)
         | Inl st2 \<Rightarrow> (fst r, saveChain (chain\<lparr>c_isHealthy := False\<rparr>) st2))"

text \<open>
  Whether the attempt of number \<open>attempt\<close> for a chain fails, on the store as the retry loop
  of that chain finds it (the store after the health of the chain was saved).
\<close>

definition attemptFails :: "Helpers \<Rightarrow> Remote \<Rightarrow> Store \<Rightarrow> Chain \<Rightarrow> nat \<Rightarrow> bool" where
  "attemptFails h rm st chain0 attempt =
     (case attemptOutcome h rm (healthChecked rm chain0) (healthyRpcUrlsOf rm chain0)
             (saveChain (healthChecked rm chain0) st) attempt of
        Inl st1 \<Rightarrow> True
      | Inr st1 \<Rightarrow> False)"


subsection \<open>Step 4: updateEvmNetworksFromGithub\<close>

text \<open>
  The three classifiers take an entity (\<open>Inl\<close>, the \<open>instanceof EvmNetwork\<close> branch) or a
  feed record (\<open>Inr\<close>).
\<close>

definition isStandaloneEvmNetwork :: "EvmNetwork + GithubEvmNetwork \<Rightarrow> bool" where
  "isStandaloneEvmNetwork x =
     (case x of
        Inl n \<Rightarrow> n_substrateChain n = None
      | Inr g \<Rightarrow> gn_substrateChainId g = None \<and> gn_name g \<noteq> None)"

definition isSubstrateEvmNetwork :: "EvmNetwork + GithubEvmNetwork \<Rightarrow> bool" where
  "isSubstrateEvmNetwork x =
     (case x of
        Inl n \<Rightarrow> n_substrateChain n \<noteq> None
      | Inr g \<Rightarrow> gn_substrateChainId g \<noteq> None)"

definition isInvalidEvmNetwork :: "EvmNetwork + GithubEvmNetwork \<Rightarrow> bool" where
  "isInvalidEvmNetwork x = (\<not> isStandaloneEvmNetwork x \<and> \<not> isSubstrateEvmNetwork x)"

text \<open>\<open>store.findOne(EvmNetwork, {where: ...})\<close>: the first row that matches.\<close>

definition findEvmNetworkByName :: "Store \<Rightarrow> string \<Rightarrow> EvmNetwork option" where
  "findEvmNetworkByName st nm =
     map_option snd (find (\<lambda>p. n_name (snd p) = Some nm) (evmNetworks st))"

definition findEvmNetworkBySubstrateChain :: "Store \<Rightarrow> string \<Rightarrow> EvmNetwork option" where
  "findEvmNetworkBySubstrateChain st cid =
     map_option snd (find (\<lambda>p. n_substrateChain (snd p) = Some cid) (evmNetworks st))"

definition newEthereumRpcs :: "string list option \<Rightarrow> EthereumRpc list" where
  "newEthereumRpcs us =
     map (\<lambda>u. \<lparr>e_url = u, e_isHealthy = False\<rparr>) (case us of None \<Rightarrow> [] | Some xs \<Rightarrow> xs)"

text \<open>The entity of a standalone feed record (a standalone record has a name).\<close>

definition standaloneEntity :: "Store \<Rightarrow> GithubEvmNetwork \<Rightarrow> EvmNetwork" where
  "standaloneEntity st g =
     (let entity =
            (case gn_name g of
               None \<Rightarrow> newEvmNetwork
             | Some nm \<Rightarrow>
                 (case findEvmNetworkByName st nm of None \<Rightarrow> newEvmNetwork | Some e \<Rightarrow> e))
      in entity
          \<lparr>n_isTestnet := orFalse (gn_isTestnet g),
           n_name := gn_name g,
           n_explorerUrl := gn_explorerUrl g,
           n_rpcs := newEthereumRpcs (gn_rpcs g),
           n_substrateChain := None\<rparr>)"

text \<open>
  The entity of a substrate-linked feed record; \<open>None\<close> when the chain it names is not in the
  store (the \<open>return null\<close>).
\<close>

definition substrateEntity :: "Store \<Rightarrow> GithubEvmNetwork \<Rightarrow> EvmNetwork option" where
  "substrateEntity st g =
     (case gn_substrateChainId g of
        None \<Rightarrow> None
      | Some cid \<Rightarrow>
         (let entity =
                (case findEvmNetworkBySubstrateChain st cid of
                   None \<Rightarrow> newEvmNetwork
                 | Some e \<Rightarrow> e);
              entity1 =
                entity
                  \<lparr>n_isTestnet := orFalse (gn_isTestnet g),
                   n_name := gn_name g,
                   n_explorerUrl := gn_explorerUrl g,
                   n_rpcs := newEthereumRpcs (gn_rpcs g)\<rparr>
          in case map_of (chains st) cid of
               None \<Rightarrow> None
             | Some substrateChain \<Rightarrow>
                 Some (entity1
                         \<lparr>n_substrateChain := Some (c_id substrateChain),
                          n_isTestnet := c_isTestnet substrateChain,
                          n_name := (if truthyStr (gn_name g) then gn_name g
                                     else c_name substrateChain),
                          n_nativeToken := c_nativeToken substrateChain\<rparr>)))"

text \<open>
  The id an endpoint reports: none when the request threw, the status is not 200 or the
  result is not a number.
\<close>

definition ethereumIdOf :: "EvmResponse option \<Rightarrow> string option" where
  "ethereumIdOf resp =
     (case resp of
        None \<Rightarrow> None
      | Some r \<Rightarrow>
          if er_status r \<noteq> 200 then None
          else (case er_result r of None \<Rightarrow> None | Some i \<Rightarrow> Some (toString10 i)))"

definition ethereumIdsOf :: "Remote \<Rightarrow> EthereumRpc list \<Rightarrow> string option list" where
  "ethereumIdsOf rm rpcs = map (\<lambda>rpc. ethereumIdOf (ethChainId rm (e_url rpc))) rpcs"

text \<open>
  The probe of one network: every endpoint is healthy iff it reported an id; when some
  endpoint reported one, the id of the network is the first reported id and every
  endpoint whose id is another (or none) is set unhealthy; the network is healthy iff
  an endpoint still is.
\<close>

definition probeEvmNetwork :: "Remote \<Rightarrow> EvmNetwork \<Rightarrow> EvmNetwork" where
  "probeEvmNetwork rm evmNetwork =
     (let ethereumIds = ethereumIdsOf rm (n_rpcs evmNetwork);
          rpcs1 = map (\<lambda>p. (fst p)\<lparr>e_isHealthy := snd p \<noteq> None\<rparr>)
                    (zip (n_rpcs evmNetwork) ethereumIds);
          n1 = evmNetwork\<lparr>n_rpcs := rpcs1\<rparr>;
          n2 = (case filter (\<lambda>i. i \<noteq> None) ethereumIds of
                  [] \<Rightarrow> n1
                | first # _ \<Rightarrow>
                    n1\<lparr>n_id := first,
                       n_rpcs := map (\<lambda>p. if snd p = first then fst p
                                           else (fst p)\<lparr>e_isHealthy := False\<rparr>)
                                   (zip rpcs1 ethereumIds)\<rparr>);
          healthyRpcUrls = map e_url (filter e_isHealthy (n_rpcs n2))
      in n2\<lparr>n_isHealthy := length healthyRpcUrls > 0\<rparr>)"

text \<open>
  The feed record the mapper looks up for a standalone network (the first standalone record
  of its name), and the symbol and the decimals of its native token: \<open>symbol || 'ETH'\<close>, and
  \<open>decimals\<close> when it is a number, 18 otherwise.
\<close>

definition githubNetworkOf :: "GithubEvmNetwork list \<Rightarrow> EvmNetwork \<Rightarrow> GithubEvmNetwork option" where
  "githubNetworkOf gh evmNetwork =
     find (\<lambda>g. gn_name g = n_name evmNetwork) (filter (\<lambda>g. isStandaloneEvmNetwork (Inr g)) gh)"

definition nativeSymbolOf :: "GithubEvmNetwork option \<Rightarrow> string" where
  "nativeSymbolOf githubNetwork =
     (case githubNetwork of
        None \<Rightarrow> ''ETH''
      | Some g \<Rightarrow> (case gn_symbol g of None \<Rightarrow> ''ETH'' | Some s \<Rightarrow> if s \<noteq> [] then s else ''ETH''))"

definition nativeDecimalsOf :: "GithubEvmNetwork option \<Rightarrow> int" where
  "nativeDecimalsOf githubNetwork =
     (case githubNetwork of
        None \<Rightarrow> 18
      | Some g \<Rightarrow> (case gn_decimals g of None \<Rightarrow> 18 | Some k \<Rightarrow> k))"

text \<open>
  The rest of the mapper for one probed network. The state is the two deletion maps
  (their keys) and the store; the result is the new state and the entity to save, or
  \<open>None\<close> for a network without an id.
\<close>

definition provisionEvmNetwork ::
  "Helpers \<Rightarrow> GithubEvmNetwork list \<Rightarrow> string list \<times> string list \<times> Store \<Rightarrow> EvmNetwork \<Rightarrow>
   (string list \<times> string list \<times> Store) \<times> EvmNetwork option" where
  "provisionEvmNetwork h gh acc evmNetwork =
     (case n_id evmNetwork of
        None \<Rightarrow> (acc, None)
      | Some i \<Rightarrow>
         (let deletedStandalone =
                (if isStandaloneEvmNetwork (Inl evmNetwork) then removeAll i (fst acc)
                 else fst acc);
              deletedSubstrate =
                (if isSubstrateEvmNetwork (Inl evmNetwork) then removeAll i (fst (snd acc))
                 else fst (snd acc));
              st = snd (snd acc)
          in if isStandaloneEvmNetwork (Inl evmNetwork)
             then
               (let githubNetwork = githubNetworkOf gh evmNetwork;
                    symbol = nativeSymbolOf githubNetwork;
                    nativeToken = getOrCreateToken st NativeToken (nativeTokenId h i (Some symbol));
                    st1 = saveToken
                            (nativeToken
                               \<lparr>d_symbol := Some symbol,
                                d_decimals := Some (nativeDecimalsOf githubNetwork)\<rparr>)
                            st
                in ((deletedStandalone, deletedSubstrate, st1),
                    Some (evmNetwork\<lparr>n_nativeToken := Some (d_id nativeToken)\<rparr>)))
             else ((deletedStandalone, deletedSubstrate, st), Some evmNetwork)))"

definition evmNetworkLoopBody ::
  "Helpers \<Rightarrow> Remote \<Rightarrow> GithubEvmNetwork list \<Rightarrow>
   (string list \<times> string list \<times> Store) \<times> EvmNetwork list \<Rightarrow> EvmNetwork \<Rightarrow>
   (string list \<times> string list \<times> Store) \<times> EvmNetwork list" where
  "evmNetworkLoopBody h rm gh acc evmNetwork =
     (let r = provisionEvmNetwork h gh (fst acc) (probeEvmNetwork rm evmNetwork)
      in (fst r, snd acc @ (case snd r of None \<Rightarrow> [] | Some n \<Rightarrow> [n])))"

text \<open>The entities built from the feed: the standalone ones, then the substrate-linked ones.\<close>

definition evmNetworkEntities :: "Store \<Rightarrow> GithubEvmNetwork list \<Rightarrow> EvmNetwork list" where
  "evmNetworkEntities st gh =
     (let standaloneEvmNetworks =
            map (standaloneEntity st) (filter (\<lambda>g. isStandaloneEvmNetwork (Inr g)) gh);
          substrateEvmNetworks =
            List.map_filter (substrateEntity st) (filter (\<lambda>g. isSubstrateEvmNetwork (Inr g)) gh)
      in standaloneEvmNetworks @ substrateEvmNetworks)"

text \<open>
  The probing pass over the entities: its result is the deletion maps, the store and
  the list \<open>evmNetworkUpdates\<close> of the entities to save.
\<close>

definition evmNetworkPass ::
  "Helpers \<Rightarrow> Remote \<Rightarrow> SharedData \<Rightarrow> Store \<Rightarrow>
   (string list \<times> string list \<times> Store) \<times> EvmNetwork list" where
  "evmNetworkPass h rm sh st =
     (let storeEvmNetworks = evmNetworks st;
          deletedStandaloneEvmNetworkIdsMap =
            map fst (filter (\<lambda>p. isStandaloneEvmNetwork (Inl (snd p))) storeEvmNetworks);
          deletedSubstrateEvmNetworkIdsMap =
            map fst (filter (\<lambda>p. isSubstrateEvmNetwork (Inl (snd p))) storeEvmNetworks)
      in foldl (evmNetworkLoopBody h rm (githubEvmNetworks sh))
           ((deletedStandaloneEvmNetworkIdsMap, deletedSubstrateEvmNetworkIdsMap, st), [])
           (evmNetworkEntities st (githubEvmNetworks sh)))"

definition updateEvmNetworksFromGithub :: "Helpers \<Rightarrow> Remote \<Rightarrow> SharedData \<Rightarrow> Store \<Rightarrow> Store" where
  "updateEvmNetworksFromGithub h rm sh st =
     (let deletedInvalidEvmNetworkIds =
            map fst (filter (\<lambda>p. isInvalidEvmNetwork (Inl (snd p))) (evmNetworks st));
          r = evmNetworkPass h rm sh st;
          evmNetworkUpdates = snd r;
          st1 = foldl (\<lambda>s n. saveEvmNetwork n s) (snd (snd (fst r))) evmNetworkUpdates;
          deletedEvmNetworkIds =
            deletedInvalidEvmNetworkIds @ fst (fst r) @ fst (snd (fst r))
      in if length deletedEvmNetworkIds > 0
         then st1\<lparr>evmNetworks := deleteIds deletedEvmNetworkIds (evmNetworks st1)\<rparr>
         else st1)"

text \<open>
  The list \<open>evmNetworkUpdates\<close> of the step, and the entity the mapper returns for a probed
  network (it does not depend on the deletion maps and the store): none for a network
  without an id, the network with its native token for a standalone one, the network as
  it is for a substrate-linked one.
\<close>

definition evmNetworkUpdates :: "Helpers \<Rightarrow> Remote \<Rightarrow> SharedData \<Rightarrow> Store \<Rightarrow> EvmNetwork list" where
  "evmNetworkUpdates h rm sh st = snd (evmNetworkPass h rm sh st)"

definition savedEntity :: "Helpers \<Rightarrow> GithubEvmNetwork list \<Rightarrow> EvmNetwork \<Rightarrow> EvmNetwork option" where
  "savedEntity h gh evmNetwork =
     (case n_id evmNetwork of
        None \<Rightarrow> None
      | Some i \<Rightarrow>
          if isStandaloneEvmNetwork (Inl evmNetwork)
          then Some (evmNetwork
                       \<lparr>n_nativeToken :=
                          Some (nativeTokenId h i
                                  (Some (nativeSymbolOf (githubNetworkOf gh evmNetwork))))\<rparr>)
          else Some evmNetwork)"

subsection \<open>Step 5: updateSortIndexes\<close>


subsection \<open>Step 6: updateTokensFromGithub\<close>









subsection \<open>Step 7: updateTokensTestnetField\<close>

text \<open>
  Modelled from the spec: the two inverse relations of a token that \<open>loadRelationIds\<close> fills
  in (token.model.ts is not under src/): the chains, and the EVM networks, whose
  \<open>nativeToken\<close> is the token.
\<close>

definition squidImplementationDetailNativeToChains :: "Store \<Rightarrow> Token \<Rightarrow> string list" where
  "squidImplementationDetailNativeToChains st t =
     map fst (filter (\<lambda>p. c_nativeToken (snd p) = Some (t_id t)) (chains st))"

definition squidImplementationDetailNativeToEvmNetworks :: "Store \<Rightarrow> Token \<Rightarrow> string list" where
  "squidImplementationDetailNativeToEvmNetworks st t =
     map fst (filter (\<lambda>p. n_nativeToken (snd p) = Some (t_id t)) (evmNetworks st))"

text \<open>\<open>[x, ...xs].filter(Boolean)\<close> for an optional reference \<open>x\<close>.\<close>

definition refs :: "string option \<Rightarrow> string list \<Rightarrow> string list" where
  "refs x xs = (case x of None \<Rightarrow> [] | Some i \<Rightarrow> [i]) @ xs"

definition isTestnetToken :: "Store \<Rightarrow> Token \<Rightarrow> bool" where
  "isTestnetToken st token =
     list_all (\<lambda>isTestnet. isTestnet)
       (map c_isTestnet
          (List.map_filter (map_of (chains st))
             (refs (t_squidImplementationDetailChain token)
                (squidImplementationDetailNativeToChains st token)))
        @ map n_isTestnet
            (List.map_filter (map_of (evmNetworks st))
               (refs (t_squidImplementationDetailEvmNetwork token)
                  (squidImplementationDetailNativeToEvmNetworks st token))))"

definition updateTokensTestnetField :: "Store \<Rightarrow> Store" where
  "updateTokensTestnetField st =
     (let updatedTokens =
            map (\<lambda>token. token\<lparr>t_squidImplementationDetail :=
                                 (t_squidImplementationDetail token)
                                   \<lparr>d_isTestnet := isTestnetToken st token\<rparr>\<rparr>)
              (map snd (tokens st))
      in foldl (\<lambda>s t. saveTokenEntity t s) st updatedTokens)"

subsection \<open>Step 8: updateTokenRates\<close>

definition coingeckoCurrencies :: "string list" where
  "coingeckoCurrencies = [''usd'', ''eur'']"

definition coingeckoIdsOf :: "Store \<Rightarrow> string list" where
  "coingeckoIdsOf st =
     List.map_filter
       (\<lambda>token. if d_isTestnet (t_squidImplementationDetail token) then None
                 else if \<not> truthyStr (d_coingeckoId (t_squidImplementationDetail token)) then None
                 else d_coingeckoId (t_squidImplementationDetail token))
       (map snd (tokens st))"

text \<open>The new quote snapshot of one token, given the answer of the price feed.\<close>

definition ratesOf :: "(string \<times> (string \<times> real) list) list \<Rightarrow> TokenDetail \<Rightarrow> TokenRates option" where
  "ratesOf coingeckoPrices d =
     (if d_isTestnet d then None
      else (case d_coingeckoId d of
              None \<Rightarrow> None
            | Some cg \<Rightarrow>
                if cg = [] then None
                else (case map_of coingeckoPrices cg of
                        None \<Rightarrow> None
                      | Some rates \<Rightarrow>
                          Some (map (\<lambda>currency. (currency, map_of rates currency))
                                  coingeckoCurrencies))))"

text \<open>The step throws when the price feed cannot be fetched: the result is then \<open>None\<close>.\<close>

definition updateTokenRates :: "Remote \<Rightarrow> Store \<Rightarrow> Store option" where
  "updateTokenRates rm st =
     (case simplePrice rm (coingeckoIdsOf st) coingeckoCurrencies of
        None \<Rightarrow> None
      | Some coingeckoPrices \<Rightarrow>
          (let updatedTokens =
                 map (\<lambda>token. token\<lparr>t_squidImplementationDetail :=
                                      (t_squidImplementationDetail token)
                                        \<lparr>d_rates := ratesOf coingeckoPrices
                                                      (t_squidImplementationDetail token)\<rparr>\<rparr>)
                   (map snd (tokens st))
           in Some (foldl (\<lambda>s t. saveTokenEntity t s) st updatedTokens)))"

subsection \<open>The pipeline\<close>



section \<open>Example inputs\<close>

text \<open>
  An instance of the helper parameters, a remote world in which every feed is empty, every
  chain endpoint answers the health probe and every other request fails, and entities
  used to run the steps on concrete inputs.
\<close>

definition exHelpers :: Helpers where
  "exHelpers =
     \<lparr>nativeTokenId = (\<lambda>c s. c @ ''-native-'' @ (case s of None \<Rightarrow> ''undefined'' | Some x \<Rightarrow> x)),
      ormlTokenId = (\<lambda>c s. c @ ''-orml-'' @ s),
      erc20TokenId = (\<lambda>n a. n @ ''-erc20-'' @ a),
      twox64Concat = (\<lambda>bs. map (\<lambda>b. ''0123456789abcdef'' ! (unat b mod 16)) bs),
      tokenSymbolWorkarounds = (\<lambda>c. None),
      sortChainsAndNetworks = (\<lambda>cs ns. map Inl cs @ map Inr ns)\<rparr>"

definition quietRemote :: Remote where
  "quietRemote =
     \<lparr>feedChains = Some [], feedTestnetChains = Some [], feedEvmNetworks = Some [],
      feedTokens = Some [], chainGetBlockHash = (\<lambda>u. True), rpcData = (\<lambda>u a. None),
      ethChainId = (\<lambda>u. None), simplePrice = (\<lambda>ids cs. Some [])\<rparr>"

definition threeRpcChain :: Chain where
  "threeRpcChain =
     (newChain ''acala'')
       \<lparr>c_rpcs := [\<lparr>s_url = ''wss://a'', s_isHealthy = False\<rparr>,
                   \<lparr>s_url = ''wss://b'', s_isHealthy = False\<rparr>,
                   \<lparr>s_url = ''wss://c'', s_isHealthy = False\<rparr>]\<rparr>"

text \<open>A store that holds the chain and one derived token of it.\<close>

definition ausdToken :: Token where
  "ausdToken =
     \<lparr>t_id = ''acala-orml-AUSD'',
      t_squidImplementationDetail =
        (newTokenDetail OrmlToken ''acala-orml-AUSD'')
          \<lparr>d_symbol := Some ''AUSD'', d_decimals := Some 12, d_stateKey := Some ''01'',
           d_chain := Some ''acala''\<rparr>,
      t_squidImplementationDetailChain = Some ''acala'',
      t_squidImplementationDetailEvmNetwork = None\<rparr>"

definition acalaStore :: Store where
  "acalaStore =
     \<lparr>chains = [(''acala'', threeRpcChain)], evmNetworks = [],
      tokens = [(''acala-orml-AUSD'', ausdToken)]\<rparr>"

text \<open>
  An EVM network with three endpoints: the first does not answer, the second reports the
  id 1 and the third the id 5.
\<close>

definition threeRpcNetwork :: EvmNetwork where
  "threeRpcNetwork =
     newEvmNetwork\<lparr>n_rpcs := newEthereumRpcs (Some [''https://a'', ''https://b'', ''https://c''])\<rparr>"

definition splitRemote :: Remote where
  "splitRemote =
     quietRemote
       \<lparr>ethChainId :=
          (\<lambda>u. if u = ''https://b'' then Some \<lparr>er_status = 200, er_result = Some 1\<rparr>
                else if u = ''https://c'' then Some \<lparr>er_status = 200, er_result = Some 5\<rparr>
                else None)\<rparr>"

text \<open>
  A chain feed in which the parachain comes before its relay chain, and one in which the
  parachain has no paraId.
\<close>

definition polkadotRecord :: GithubChain where
  "polkadotRecord =
     \<lparr>gc_id = ''polkadot'', gc_isTestnet = None, gc_name = Some ''Polkadot'', gc_account = None,
      gc_subscanUrl = None, gc_rpcs = None, gc_paraId = None, gc_relay = None\<rparr>"

definition acalaRecord :: GithubChain where
  "acalaRecord =
     \<lparr>gc_id = ''acala'', gc_isTestnet = None, gc_name = Some ''Acala'', gc_account = None,
      gc_subscanUrl = None, gc_rpcs = None, gc_paraId = Some 2000, gc_relay = Some ''polkadot''\<rparr>"

definition parachainFirstFeed :: SharedData where
  "parachainFirstFeed =
     \<lparr>githubChains = [acalaRecord, polkadotRecord], githubEvmNetworks = [], githubTokens = []\<rparr>"

text \<open>
  A store with a testnet chain and a mainnet chain that share their native token, and a
  token that nothing references.
\<close>

definition sharedToken :: Token where
  "sharedToken =
     \<lparr>t_id = ''tok'', t_squidImplementationDetail = newTokenDetail NativeToken ''tok'',
      t_squidImplementationDetailChain = None, t_squidImplementationDetailEvmNetwork = None\<rparr>"

definition orphanToken :: Token where
  "orphanToken =
     \<lparr>t_id = ''orphan'', t_squidImplementationDetail = newTokenDetail NativeToken ''orphan'',
      t_squidImplementationDetailChain = None, t_squidImplementationDetailEvmNetwork = None\<rparr>"

definition testnetChainA :: Chain where
  "testnetChainA = (newChain ''a'')\<lparr>c_isTestnet := True, c_nativeToken := Some ''tok''\<rparr>"

definition mainnetChainB :: Chain where
  "mainnetChainB = (newChain ''b'')\<lparr>c_nativeToken := Some ''tok''\<rparr>"

definition twoChainStore :: Store where
  "twoChainStore =
     \<lparr>chains = [(''a'', testnetChainA), (''b'', mainnetChainB)],
      evmNetworks = [],
      tokens = [(''tok'', sharedToken), (''orphan'', orphanToken)]\<rparr>"

text \<open>
  A store with two mainnet tokens that carry a quote of an earlier run, and a price feed
  that answers for the first of them only.
\<close>

definition quotedToken :: "string \<Rightarrow> string \<Rightarrow> Token" where
  "quotedToken i cg =
     \<lparr>t_id = i,
      t_squidImplementationDetail =
        (newTokenDetail NativeToken i)
          \<lparr>d_coingeckoId := Some cg, d_rates := Some [(''usd'', Some 1), (''eur'', Some 1)]\<rparr>,
      t_squidImplementationDetailChain = None, t_squidImplementationDetailEvmNetwork = None\<rparr>"

definition quotedStore :: Store where
  "quotedStore =
     \<lparr>chains = [], evmNetworks = [],
      tokens = [(''dot'', quotedToken ''dot'' ''polkadot''), (''old'', quotedToken ''old'' ''delisted'')]\<rparr>"

definition priceRemote :: Remote where
  "priceRemote =
     quietRemote\<lparr>simplePrice := (\<lambda>ids cs. Some [(''polkadot'', [(''usd'', 5), (''eur'', 4)])])\<rparr>"


text \<open>
  A store that holds the chain Moonbeam, and a feed whose only EVM network is linked to it
  and has a name and a testnet flag of its own.
\<close>

definition moonbeamChain :: Chain where
  "moonbeamChain = (newChain ''moonbeam'')\<lparr>c_name := Some ''Moonbeam''\<rparr>"

definition moonbeamStore :: Store where
  "moonbeamStore = \<lparr>chains = [(''moonbeam'', moonbeamChain)], evmNetworks = [], tokens = []\<rparr>"

definition moonbeamNetworkRecord :: GithubEvmNetwork where
  "moonbeamNetworkRecord =
     \<lparr>gn_name = Some ''Moonbeam EVM'', gn_substrateChainId = Some ''moonbeam'',
      gn_isTestnet = Some True, gn_explorerUrl = None, gn_rpcs = Some [''https://b''],
      gn_symbol = None, gn_decimals = None\<rparr>"

definition moonbeamFeed :: SharedData where
  "moonbeamFeed =
     \<lparr>githubChains = [], githubEvmNetworks = [moonbeamNetworkRecord], githubTokens = []\<rparr>"















section \<open>Properties\<close>

subsection \<open>Tables\<close>

declare digits10.simps [simp del]

lemma map_of_deleteIds: "map_of (deleteIds ids tbl) k = (if k \<in> set ids then None else map_of tbl k)"
  unfolding deleteIds_def by (induction tbl) auto

lemma set_update_subset: "set (AList.update k v tbl) \<subseteq> insert (k, v) (set tbl)"
  by (induction tbl) auto

lemma wfTable_update:
  assumes "wfTable key tbl" and "key v = Some k"
  shows "wfTable key (AList.update k v tbl)"
proof -
  have "set (AList.update k v tbl) \<subseteq> insert (k, v) (set tbl)"
    by (rule set_update_subset)
  then have "\<forall>p \<in> set (AList.update k v tbl). key (snd p) = Some (fst p)"
    using assms by (auto simp: wfTable_def)
  then show ?thesis
    using assms(1) by (simp add: wfTable_def distinct_update)
qed


lemma wfTable_map_of:
  "wfTable key tbl \<Longrightarrow> map_of tbl k = Some v \<Longrightarrow> key v = Some k"
  unfolding wfTable_def by (auto dest: map_of_SomeD)

lemma wfTable_Nil: "wfTable key []"
  by (simp add: wfTable_def)

lemma c_id_getOrCreateChain:
  "wfTable (\<lambda>c. Some (c_id c)) (chains st) \<Longrightarrow> c_id (getOrCreateChain st i) = i"
  by (auto simp: getOrCreateChain_def newChain_def split: option.splits dest: wfTable_map_of)

lemma c_id_applyGithubChain:
  "wfTable (\<lambda>c. Some (c_id c)) (chains st) \<Longrightarrow> c_id (applyGithubChain st g) = gc_id g"
  by (simp add: applyGithubChain_def Let_def c_id_getOrCreateChain)

lemma applyGithubChain_parachain:
  "(c_relay (applyGithubChain st g) = None) = (c_paraId (applyGithubChain st g) = None)"
  by (auto simp: applyGithubChain_def Let_def truthyNum_def split: option.splits)

lemma wf_chainsLoopBody:
  "wfTable (\<lambda>c. Some (c_id c)) (chains (snd acc)) \<Longrightarrow>
   wfTable (\<lambda>c. Some (c_id c)) (chains (snd (chainsLoopBody acc g)))"
  by (simp add: chainsLoopBody_def saveChain_def wfTable_update c_id_applyGithubChain)

lemma wf_chainsLoop:
  "wfTable (\<lambda>c. Some (c_id c)) (chains (snd acc)) \<Longrightarrow>
   wfTable (\<lambda>c. Some (c_id c)) (chains (snd (foldl chainsLoopBody acc gs)))"
  by (induction gs arbitrary: acc) (simp_all add: wf_chainsLoopBody)

lemma chainsLoop_inv:
  assumes "wfTable (\<lambda>c. Some (c_id c)) (chains (snd acc))"
    and "\<forall>k c. map_of (chains (snd acc)) k = Some c \<longrightarrow> k \<in> set (fst acc) \<or> P c"
    and "\<And>s g. P (applyGithubChain s g)"
  shows "\<forall>k c. map_of (chains (snd (foldl chainsLoopBody acc gs))) k = Some c \<longrightarrow>
           k \<in> set (fst (foldl chainsLoopBody acc gs)) \<or> P c"
  using assms(1,2)
proof (induction gs arbitrary: acc)
  case Nil then show ?case by simp
next
  case (Cons g gs)
  have "\<forall>k c. map_of (chains (snd (chainsLoopBody acc g))) k = Some c \<longrightarrow>
           k \<in> set (fst (chainsLoopBody acc g)) \<or> P c"
    using Cons.prems assms(3)
    by (auto simp: chainsLoopBody_def saveChain_def update_conv' c_id_applyGithubChain)
  with Cons.IH [OF wf_chainsLoopBody [OF Cons.prems(1)]] show ?case by simp
qed

lemma updateChains_all:
  assumes "wfTable (\<lambda>c. Some (c_id c)) (chains st)" and "\<And>s g. P (applyGithubChain s g)"
    and "map_of (chains (updateChainsFromGithub sh st)) k = Some c"
  shows "P c"
proof -
  let ?acc = "foldl chainsLoopBody (map fst (chains st), st) (githubChains sh)"
  have inv: "\<forall>k c. map_of (chains (snd ?acc)) k = Some c \<longrightarrow> k \<in> set (fst ?acc) \<or> P c"
    by (rule chainsLoop_inv) (use assms in \<open>auto dest: map_of_SomeD simp: rev_image_eqI\<close>)
  show ?thesis
    using assms(3) inv
    by (auto simp: updateChainsFromGithub_def Let_def map_of_deleteIds split: if_splits)
qed

subsection \<open>The EVM probe\<close>

lemma first_reported:
  assumes "k < length xs" and "xs ! k = Some i" and "\<forall>j<k. xs ! j = None"
  shows "\<exists>rest. filter (\<lambda>x. x \<noteq> None) xs = Some i # rest"
proof -
  have split: "xs = take k xs @ xs ! k # drop (Suc k) xs"
    using assms(1) by (rule id_take_nth_drop)
  have "\<forall>x \<in> set (take k xs). x = None"
    using assms(1,3) by (auto simp: in_set_conv_nth)
  then have "filter (\<lambda>x. x \<noteq> None) (take k xs) = []"
    by (auto simp: filter_empty_conv)
  then have "filter (\<lambda>x. x \<noteq> None) xs = Some i # filter (\<lambda>x. x \<noteq> None) (drop (Suc k) xs)"
    using assms(2) by (subst split) simp
  then show ?thesis by blast
qed

lemma length_ethereumIdsOf: "length (ethereumIdsOf rm rpcs) = length rpcs"
  by (simp add: ethereumIdsOf_def)

lemma probe_none_reported:
  assumes "filter (\<lambda>x. x \<noteq> None) (ethereumIdsOf rm (n_rpcs n)) = []"
  shows "n_id (probeEvmNetwork rm n) = n_id n"
    and "n_rpcs (probeEvmNetwork rm n) =
           map (\<lambda>p. (fst p)\<lparr>e_isHealthy := snd p \<noteq> None\<rparr>)
             (zip (n_rpcs n) (ethereumIdsOf rm (n_rpcs n)))"
  using assms by (simp_all add: probeEvmNetwork_def Let_def)

lemma probe_some_reported:
  assumes "filter (\<lambda>x. x \<noteq> None) (ethereumIdsOf rm (n_rpcs n)) = first # rest"
  shows "n_id (probeEvmNetwork rm n) = first"
    and "n_rpcs (probeEvmNetwork rm n) =
           map (\<lambda>p. if snd p = first then fst p else (fst p)\<lparr>e_isHealthy := False\<rparr>)
             (zip (map (\<lambda>p. (fst p)\<lparr>e_isHealthy := snd p \<noteq> None\<rparr>)
                     (zip (n_rpcs n) (ethereumIdsOf rm (n_rpcs n))))
                (ethereumIdsOf rm (n_rpcs n)))"
  using assms by (simp_all add: probeEvmNetwork_def Let_def)

lemma length_probe_rpcs: "length (n_rpcs (probeEvmNetwork rm n)) = length (n_rpcs n)"
  by (cases "filter (\<lambda>x. x \<noteq> None) (ethereumIdsOf rm (n_rpcs n))")
     (simp_all add: probe_none_reported probe_some_reported length_ethereumIdsOf)

lemma probe_disagreeing_unhealthy:
  assumes "k < length (n_rpcs n)"
    and "ethereumIdsOf rm (n_rpcs n) ! k \<noteq> n_id (probeEvmNetwork rm n)"
  shows "\<not> e_isHealthy (n_rpcs (probeEvmNetwork rm n) ! k)"
proof (cases "filter (\<lambda>x. x \<noteq> None) (ethereumIdsOf rm (n_rpcs n))")
  case Nil
  then have "\<forall>x \<in> set (ethereumIdsOf rm (n_rpcs n)). x = None"
    by (auto simp: filter_empty_conv)
  then have "ethereumIdsOf rm (n_rpcs n) ! k = None"
    using assms(1) by (simp add: length_ethereumIdsOf)
  then show ?thesis
    using assms(1) by (simp add: probe_none_reported(2) [OF Nil] length_ethereumIdsOf)
next
  case (Cons first rest)
  then show ?thesis
    using assms by (simp add: probe_some_reported [OF Cons] length_ethereumIdsOf)
qed

lemma ethereumIdOf_Some:
  "(ethereumIdOf resp = Some s) =
   (\<exists>r v. resp = Some r \<and> er_status r = 200 \<and> er_result r = Some v \<and> s = toString10 v)"
  by (auto simp: ethereumIdOf_def split: option.splits)

text \<open>
  C2. The id of a probed network is the id reported by the first endpoint, in list order,
  that answered with status 200 and a numeric result; and every endpoint whose reported
  id is not the id of the network is unhealthy after the probe, whatever it answered.
\<close>

theorem evm_canonical_id_first_reported:
  "(\<forall>k r v. k < length (n_rpcs n) \<and>
       ethChainId rm (e_url (n_rpcs n ! k)) = Some r \<and> er_status r = 200 \<and> er_result r = Some v \<and>
       (\<forall>j<k. ethereumIdOf (ethChainId rm (e_url (n_rpcs n ! j))) = None)
       \<longrightarrow> n_id (probeEvmNetwork rm n) = Some (toString10 v)) \<and>
   length (n_rpcs (probeEvmNetwork rm n)) = length (n_rpcs n) \<and>
   (\<forall>k<length (n_rpcs n).
       ethereumIdOf (ethChainId rm (e_url (n_rpcs n ! k))) \<noteq> n_id (probeEvmNetwork rm n)
       \<longrightarrow> \<not> e_isHealthy (n_rpcs (probeEvmNetwork rm n) ! k))"
proof -
  let ?ids = "ethereumIdsOf rm (n_rpcs n)"
  have nth: "?ids ! k = ethereumIdOf (ethChainId rm (e_url (n_rpcs n ! k)))"
    if "k < length (n_rpcs n)" for k
    using that unfolding ethereumIdsOf_def by (rule nth_map)
  have one: "n_id (probeEvmNetwork rm n) = Some (toString10 v)"
    if k: "k < length (n_rpcs n)"
      and r: "ethChainId rm (e_url (n_rpcs n ! k)) = Some r" "er_status r = 200" "er_result r = Some v"
      and before: "\<forall>j<k. ethereumIdOf (ethChainId rm (e_url (n_rpcs n ! j))) = None"
    for k r v
  proof -
    have "ethereumIdOf (ethChainId rm (e_url (n_rpcs n ! k))) = Some (toString10 v)"
      unfolding ethereumIdOf_Some using r by blast
    then have at: "?ids ! k = Some (toString10 v)"
      using nth [OF k] by simp
    have "?ids ! j = None" if "j < k" for j
    proof -
      have "j < length (n_rpcs n)" using that k by simp
      then show ?thesis using nth [of j] before that by simp
    qed
    then have "\<forall>j<k. ?ids ! j = None" by blast
    moreover have "k < length ?ids" using k by (simp only: length_ethereumIdsOf)
    ultimately obtain rest where "filter (\<lambda>x. x \<noteq> None) ?ids = Some (toString10 v) # rest"
      using first_reported [of k ?ids "toString10 v"] at by blast
    then show ?thesis by (rule probe_some_reported(1))
  qed
  have three: "\<not> e_isHealthy (n_rpcs (probeEvmNetwork rm n) ! k)"
    if k: "k < length (n_rpcs n)"
      and ne: "ethereumIdOf (ethChainId rm (e_url (n_rpcs n ! k))) \<noteq> n_id (probeEvmNetwork rm n)"
    for k
  proof -
    have "?ids ! k \<noteq> n_id (probeEvmNetwork rm n)"
      using ne unfolding nth [OF k] .
    with k show ?thesis by (rule probe_disagreeing_unhealthy)
  qed
  from one three length_probe_rpcs [of rm n] show ?thesis by blast
qed

subsection \<open>The retry loop of updateChainData\<close>

lemma ormlTokensLoop_Inl:
  "ormlTokensLoop h cid ks decs es acc = Inl s \<Longrightarrow> s = snd acc"
proof (induction es arbitrary: acc)
  case Nil
  then show ?case by simp
next
  case (Cons e es)
  show ?case
  proof (cases decs)
    case None
    with Cons show ?thesis
      by (auto simp: Let_def split: option.splits)
  next
    case (Some ds)
    have never: "ormlTokensLoop h cid ks (Some ds) xs a \<noteq> Inl s'" for xs a s'
      by (induction xs arbitrary: a) (auto simp: Let_def split: option.splits)
    from Cons.prems have False
      unfolding Some using never [of "e # es" acc s] by blast
    then show ?thesis ..
  qed
qed

lemma fetchChainData_Inl: "fetchChainData h chain d st = Inl s \<Longrightarrow> s = st"
  unfolding fetchChainData_def Let_def
  by (auto split: sum.splits dest: ormlTokensLoop_Inl)

lemma attemptOutcome_Inl:
  "attemptOutcome h rm chain urls st a = Inl s \<Longrightarrow> s = st"
  unfolding attemptOutcome_def
  by (auto split: option.splits dest: fetchChainData_Inl)

lemma attemptsLoop_all_fail:
  "(\<forall>a \<in> set as. \<exists>s. attemptOutcome h rm chain urls st a = Inl s) \<Longrightarrow>
   attemptsLoop h rm chain urls as st = (map (attemptUrl urls) as, Inl st)"
proof (induction as)
  case Nil
  then show ?case by simp
next
  case (Cons a as)
  then obtain s where s: "attemptOutcome h rm chain urls st a = Inl s" by auto
  then have "s = st" by (rule attemptOutcome_Inl)
  with s Cons show ?case by (simp add: Let_def)
qed

lemma attemptsLoop_first_success:
  assumes "\<forall>b \<in> set pre. \<exists>s. attemptOutcome h rm chain urls st b = Inl s"
    and "attemptOutcome h rm chain urls st a = Inr s'"
  shows "attemptsLoop h rm chain urls (pre @ a # post) st = (map (attemptUrl urls) (pre @ [a]), Inr s')"
  using assms(1)
proof (induction pre)
  case Nil
  then show ?case using assms(2) by simp
next
  case (Cons b pre)
  then obtain s where s: "attemptOutcome h rm chain urls st b = Inl s" by auto
  then have "s = st" by (rule attemptOutcome_Inl)
  with s Cons show ?case by (simp add: Let_def)
qed

lemma attemptsLoop_trace_prefix:
  "\<exists>k \<le> length as. fst (attemptsLoop h rm chain urls as st) = map (attemptUrl urls) (take k as)"
proof (induction as arbitrary: st)
  case Nil
  then show ?case by simp
next
  case (Cons a as)
  show ?case
  proof (cases "attemptOutcome h rm chain urls st a")
    case (Inr s)
    then have "fst (attemptsLoop h rm chain urls (a # as) st) = map (attemptUrl urls) (take 1 (a # as))"
      by simp
    then show ?thesis by (intro exI [of _ 1]) simp
  next
    case (Inl s)
    from Cons [of s] obtain k where k: "k \<le> length as"
      "fst (attemptsLoop h rm chain urls as s) = map (attemptUrl urls) (take k as)" by blast
    with Inl have "fst (attemptsLoop h rm chain urls (a # as) st) =
        map (attemptUrl urls) (take (Suc k) (a # as))"
      by (simp add: Let_def)
    with k(1) show ?thesis by (intro exI [of _ "Suc k"]) simp
  qed
qed

lemma attemptUrl_nth:
  "j < m \<Longrightarrow> attemptUrl urls ([1..<m + 1] ! j) = urls ! (j mod length urls)"
proof -
  assume "j < m"
  then have "[1..<m + 1] ! j = 1 + j"
    by (intro nth_upt) simp
  then show ?thesis by (simp add: attemptUrl_def)
qed

lemma updateChain_trace:
  "fst (updateChain h rm st chain0) =
   fst (attemptsLoop h rm (healthChecked rm chain0) (healthyRpcUrlsOf rm chain0)
          [1..<length (healthyRpcUrlsOf rm chain0) * 2 + 1] (saveChain (healthChecked rm chain0) st))"
  unfolding updateChain_def Let_def by (simp split: sum.splits)

lemma updateChain_exhausted:
  assumes "snd (attemptsLoop h rm (healthChecked rm chain0) (healthyRpcUrlsOf rm chain0)
          [1..<length (healthyRpcUrlsOf rm chain0) * 2 + 1] (saveChain (healthChecked rm chain0) st)) = Inl s"
  shows "snd (updateChain h rm st chain0) = saveChain ((healthChecked rm chain0)\<lparr>c_isHealthy := False\<rparr>) s"
  using assms unfolding updateChain_def Let_def by simp

subsection \<open>The retry budget\<close>

lemma upt_split_at:
  assumes "1 \<le> a" and "a \<le> m"
  shows "[1..<m + 1] = [1..<a] @ a # [a + 1..<m + 1]"
proof -
  have "[1..<a + (m + 1 - a)] = [1..<a] @ [a..<a + (m + 1 - a)]"
    using assms(1) by (rule upt_add_eq_append)
  moreover have "a + (m + 1 - a) = m + 1" using assms(2) by simp
  moreover have "[a..<m + 1] = a # [Suc a..<m + 1]"
    using assms(2) by (intro upt_conv_Cons) simp
  ultimately show ?thesis by simp
qed

lemma length_attempt_numbers: "length [1..<m + 1] = m"
  by (simp del: upt_Suc)

lemma c_id_healthChecked: "c_id (healthChecked rm chain0) = c_id chain0"
  by (simp add: healthChecked_def probeRpcs_def)

lemma attemptFails_Inl:
  "attemptFails h rm st chain0 a \<Longrightarrow>
   \<exists>s. attemptOutcome h rm (healthChecked rm chain0) (healthyRpcUrlsOf rm chain0)
          (saveChain (healthChecked rm chain0) st) a = Inl s"
  by (auto simp: attemptFails_def split: sum.splits)

lemma not_attemptFails_Inr:
  "\<not> attemptFails h rm st chain0 a \<Longrightarrow>
   \<exists>s. attemptOutcome h rm (healthChecked rm chain0) (healthyRpcUrlsOf rm chain0)
          (saveChain (healthChecked rm chain0) st) a = Inr s"
  by (auto simp: attemptFails_def split: sum.splits)

lemma updateChain_all_fail:
  assumes "\<forall>a. 1 \<le> a \<and> a \<le> 2 * length (healthyRpcUrlsOf rm chain0) \<longrightarrow> attemptFails h rm st chain0 a"
  shows "updateChain h rm st chain0 =
           (map (attemptUrl (healthyRpcUrlsOf rm chain0)) [1..<length (healthyRpcUrlsOf rm chain0) * 2 + 1],
            saveChain ((healthChecked rm chain0)\<lparr>c_isHealthy := False\<rparr>)
              (saveChain (healthChecked rm chain0) st))"
proof -
  let ?urls = "healthyRpcUrlsOf rm chain0"
  let ?as = "[1..<length ?urls * 2 + 1]"
  let ?st1 = "saveChain (healthChecked rm chain0) st"
  have "\<forall>a \<in> set ?as. \<exists>s. attemptOutcome h rm (healthChecked rm chain0) ?urls ?st1 a = Inl s"
    using assms by (auto intro!: attemptFails_Inl)
  then have "attemptsLoop h rm (healthChecked rm chain0) ?urls ?as ?st1 = (map (attemptUrl ?urls) ?as, Inl ?st1)"
    by (rule attemptsLoop_all_fail)
  then show ?thesis
    unfolding updateChain_def Let_def by simp
qed

lemma updateChain_first_success:
  assumes a: "1 \<le> a" "a \<le> 2 * length (healthyRpcUrlsOf rm chain0)"
    and ok: "\<not> attemptFails h rm st chain0 a"
    and before: "\<forall>b. 1 \<le> b \<and> b < a \<longrightarrow> attemptFails h rm st chain0 b"
  shows "length (fst (updateChain h rm st chain0)) = a"
proof -
  let ?urls = "healthyRpcUrlsOf rm chain0"
  let ?st1 = "saveChain (healthChecked rm chain0) st"
  have split: "[1..<length ?urls * 2 + 1] = [1..<a] @ a # [a + 1..<length ?urls * 2 + 1]"
    using a by (intro upt_split_at) simp_all
  obtain s' where s': "attemptOutcome h rm (healthChecked rm chain0) ?urls ?st1 a = Inr s'"
    using not_attemptFails_Inr [OF ok] by blast
  have "\<forall>b \<in> set [1..<a]. \<exists>s. attemptOutcome h rm (healthChecked rm chain0) ?urls ?st1 b = Inl s"
    using before by (auto intro!: attemptFails_Inl)
  from attemptsLoop_first_success [OF this s']
  have "fst (attemptsLoop h rm (healthChecked rm chain0) ?urls [1..<length ?urls * 2 + 1] ?st1) =
          map (attemptUrl ?urls) ([1..<a] @ [a])"
    unfolding split by simp
  then show ?thesis
    using a(1) by (simp add: updateChain_trace)
qed

lemma updateChain_trace_shape:
  "length (fst (updateChain h rm st chain0)) \<le> 2 * length (healthyRpcUrlsOf rm chain0) \<and>
   (\<forall>j < length (fst (updateChain h rm st chain0)).
      fst (updateChain h rm st chain0) ! j =
        healthyRpcUrlsOf rm chain0 ! (j mod length (healthyRpcUrlsOf rm chain0)))"
proof -
  let ?urls = "healthyRpcUrlsOf rm chain0"
  let ?as = "[1..<length ?urls * 2 + 1]"
  obtain k where k: "k \<le> length ?as"
    "fst (updateChain h rm st chain0) = map (attemptUrl ?urls) (take k ?as)"
    unfolding updateChain_trace using attemptsLoop_trace_prefix by blast
  have len: "length (fst (updateChain h rm st chain0)) = k"
    using k by simp
  have "fst (updateChain h rm st chain0) ! j = ?urls ! (j mod length ?urls)" if "j < k" for j
  proof -
    have "j < length ?urls * 2" using that k(1) by (simp only: length_attempt_numbers)
    then have "attemptUrl ?urls (?as ! j) = ?urls ! (j mod length ?urls)"
      by (rule attemptUrl_nth)
    then show ?thesis using that k by simp
  qed
  with len k(1) show ?thesis by (simp add: length_attempt_numbers del: upt_Suc)
qed

text \<open>
  C2 at the network with three endpoints: the id is the one the second endpoint reports,
  and the third endpoint, which answered with another id, is unhealthy.
\<close>

theorem evm_canonical_id_first_reported_witness:
  "n_id (probeEvmNetwork splitRemote threeRpcNetwork) = Some ''1'' \<and>
   length (n_rpcs (probeEvmNetwork splitRemote threeRpcNetwork)) = 3 \<and>
   \<not> e_isHealthy (n_rpcs (probeEvmNetwork splitRemote threeRpcNetwork) ! 2)"
proof -
  note T = evm_canonical_id_first_reported [of threeRpcNetwork splitRemote]
  have rpcs: "n_rpcs threeRpcNetwork =
      [\<lparr>e_url = ''https://a'', e_isHealthy = False\<rparr>, \<lparr>e_url = ''https://b'', e_isHealthy = False\<rparr>,
       \<lparr>e_url = ''https://c'', e_isHealthy = False\<rparr>]"
    by (simp add: threeRpcNetwork_def newEvmNetwork_def newEthereumRpcs_def)
  have one: "toString10 1 = ''1''" and five: "toString10 5 = ''5''"
    by (simp_all add: toString10_def digits10.simps)
  have a: "ethChainId splitRemote ''https://a'' = None"
    and b: "ethChainId splitRemote ''https://b'' = Some \<lparr>er_status = 200, er_result = Some 1\<rparr>"
    and c: "ethChainId splitRemote ''https://c'' = Some \<lparr>er_status = 200, er_result = Some 5\<rparr>"
    by (simp_all add: splitRemote_def quietRemote_def)
  have id1: "n_id (probeEvmNetwork splitRemote threeRpcNetwork) = Some (toString10 1)"
    using T [THEN conjunct1, rule_format, of 1 "\<lparr>er_status = 200, er_result = Some 1\<rparr>" 1]
    by (simp add: rpcs a b ethereumIdOf_def)
  have len: "length (n_rpcs (probeEvmNetwork splitRemote threeRpcNetwork)) = 3"
    using T [THEN conjunct2, THEN conjunct1] by (simp add: rpcs)
  have "\<not> e_isHealthy (n_rpcs (probeEvmNetwork splitRemote threeRpcNetwork) ! 2)"
    using T [THEN conjunct2, THEN conjunct2, rule_format, of 2]
    by (simp add: rpcs c ethereumIdOf_def id1 one five)
  with id1 len show ?thesis by (simp add: one)
qed

text \<open>
  C3. The retry loop of a chain with \<open>n\<close> healthy endpoints opens at most \<open>2 * n\<close>
  connections; the connection of index \<open>j\<close> (from 0) goes to the healthy endpoint of index
  \<open>j mod n\<close>, so the endpoints are visited in order from the first healthy one, round
  after round; the loop stops with the first attempt that does not fail; and when all the
  \<open>2 * n\<close> attempts fail, exactly \<open>2 * n\<close> connections were opened and the chain is saved
  with its health flag false.
\<close>

theorem metadata_retry_budget:
  "length (fst (updateChain h rm st chain0)) \<le> 2 * length (healthyRpcUrlsOf rm chain0) \<and>
   (\<forall>j < length (fst (updateChain h rm st chain0)).
      fst (updateChain h rm st chain0) ! j =
        healthyRpcUrlsOf rm chain0 ! (j mod length (healthyRpcUrlsOf rm chain0))) \<and>
   (\<forall>a. 1 \<le> a \<and> a \<le> 2 * length (healthyRpcUrlsOf rm chain0) \<and>
        \<not> attemptFails h rm st chain0 a \<and>
        (\<forall>b. 1 \<le> b \<and> b < a \<longrightarrow> attemptFails h rm st chain0 b)
        \<longrightarrow> length (fst (updateChain h rm st chain0)) = a) \<and>
   ((\<forall>a. 1 \<le> a \<and> a \<le> 2 * length (healthyRpcUrlsOf rm chain0) \<longrightarrow> attemptFails h rm st chain0 a)
      \<longrightarrow> length (fst (updateChain h rm st chain0)) = 2 * length (healthyRpcUrlsOf rm chain0) \<and>
          (\<exists>c. map_of (chains (snd (updateChain h rm st chain0))) (c_id chain0) = Some c \<and>
               \<not> c_isHealthy c))"
proof -
  have exhausted:
    "length (fst (updateChain h rm st chain0)) = 2 * length (healthyRpcUrlsOf rm chain0) \<and>
     (\<exists>c. map_of (chains (snd (updateChain h rm st chain0))) (c_id chain0) = Some c \<and> \<not> c_isHealthy c)"
    if "\<forall>a. 1 \<le> a \<and> a \<le> 2 * length (healthyRpcUrlsOf rm chain0) \<longrightarrow> attemptFails h rm st chain0 a"
  proof -
    note eq = updateChain_all_fail [OF that]
    have "length (fst (updateChain h rm st chain0)) = 2 * length (healthyRpcUrlsOf rm chain0)"
      unfolding eq by (simp add: length_attempt_numbers del: upt_Suc)
    moreover have "map_of (chains (snd (updateChain h rm st chain0))) (c_id chain0) =
        Some ((healthChecked rm chain0)\<lparr>c_isHealthy := False\<rparr>)"
      unfolding eq by (simp add: saveChain_def update_conv' c_id_healthChecked)
    ultimately show ?thesis by simp
  qed
  from updateChain_trace_shape [of h rm st chain0] updateChain_first_success [of _ rm chain0 h st]
    exhausted
  show ?thesis by blast
qed

text \<open>
  C3 at a chain with three healthy endpoints whose attempts all fail: six connections,
  to the three endpoints in order, twice, and the chain is saved unhealthy.
\<close>

theorem metadata_retry_budget_witness:
  "fst (updateChain exHelpers quietRemote acalaStore threeRpcChain) =
     [''wss://a'', ''wss://b'', ''wss://c'', ''wss://a'', ''wss://b'', ''wss://c''] \<and>
   (\<exists>c. map_of (chains (snd (updateChain exHelpers quietRemote acalaStore threeRpcChain))) ''acala''
          = Some c \<and> \<not> c_isHealthy c)"
proof -
  note T = metadata_retry_budget [of exHelpers quietRemote acalaStore threeRpcChain]
  have urls: "healthyRpcUrlsOf quietRemote threeRpcChain = [''wss://a'', ''wss://b'', ''wss://c'']"
    by (simp add: healthyRpcUrlsOf_def probeRpcs_def threeRpcChain_def quietRemote_def newChain_def)
  have fails: "attemptFails exHelpers quietRemote acalaStore threeRpcChain a" for a
    by (simp add: attemptFails_def attemptOutcome_def quietRemote_def)
  have cid: "c_id threeRpcChain = ''acala''"
    by (simp add: threeRpcChain_def newChain_def)
  have len: "length (fst (updateChain exHelpers quietRemote acalaStore threeRpcChain)) = 6"
    and unhealthy: "\<exists>c. map_of (chains (snd (updateChain exHelpers quietRemote acalaStore threeRpcChain))) ''acala''
          = Some c \<and> \<not> c_isHealthy c"
    using T [THEN conjunct2, THEN conjunct2, THEN conjunct2] fails by (simp_all add: urls cid)
  have nth: "fst (updateChain exHelpers quietRemote acalaStore threeRpcChain) ! j =
      [''wss://a'', ''wss://b'', ''wss://c''] ! (j mod 3)" if "j < 6" for j
    using T [THEN conjunct2, THEN conjunct1, rule_format, of j] that by (simp add: urls len)
  have "fst (updateChain exHelpers quietRemote acalaStore threeRpcChain) =
      map (\<lambda>j. [''wss://a'', ''wss://b'', ''wss://c''] ! (j mod 3)) [0..<6]"
    by (rule nth_equalityI) (simp_all add: len nth del: upt_Suc)
  also have "\<dots> = [''wss://a'', ''wss://b'', ''wss://c'', ''wss://a'', ''wss://b'', ''wss://c'']"
    by (simp add: upt_rec)
  finally show ?thesis using unhealthy by simp
qed

text \<open>
  C6. When every attempt of the retry budget of a chain fails, processing the chain
  leaves the token table as it was (no token is created, updated or deleted) and saves
  the chain with its health flag false. An attempt that fails leaves the whole store as
  it found it: tokens are written and deleted only by an attempt that runs to its return.
\<close>

theorem exhausted_budget_keeps_tokens:
  "((\<forall>a. 1 \<le> a \<and> a \<le> 2 * length (healthyRpcUrlsOf rm chain0) \<longrightarrow> attemptFails h rm st chain0 a)
      \<longrightarrow> tokens (snd (updateChain h rm st chain0)) = tokens st \<and>
          (\<exists>c. map_of (chains (snd (updateChain h rm st chain0))) (c_id chain0) = Some c \<and>
               \<not> c_isHealthy c)) \<and>
   (\<forall>chain urls s a s'. attemptOutcome h rm chain urls s a = Inl s' \<longrightarrow> s' = s)"
proof -
  have "tokens (snd (updateChain h rm st chain0)) = tokens st \<and>
     (\<exists>c. map_of (chains (snd (updateChain h rm st chain0))) (c_id chain0) = Some c \<and> \<not> c_isHealthy c)"
    if "\<forall>a. 1 \<le> a \<and> a \<le> 2 * length (healthyRpcUrlsOf rm chain0) \<longrightarrow> attemptFails h rm st chain0 a"
  proof -
    note eq = updateChain_all_fail [OF that]
    have "tokens (snd (updateChain h rm st chain0)) = tokens st"
      unfolding eq by (simp add: saveChain_def)
    moreover have "map_of (chains (snd (updateChain h rm st chain0))) (c_id chain0) =
        Some ((healthChecked rm chain0)\<lparr>c_isHealthy := False\<rparr>)"
      unfolding eq by (simp add: saveChain_def update_conv' c_id_healthChecked)
    ultimately show ?thesis by simp
  qed
  moreover have "\<forall>chain urls s a s'. attemptOutcome h rm chain urls s a = Inl s' \<longrightarrow> s' = s"
    using attemptOutcome_Inl by blast
  ultimately show ?thesis by blast
qed

text \<open>
  C6 at the chain with three healthy endpoints whose attempts all fail: its derived token
  is still in the store, unchanged, and the chain is unhealthy.
\<close>

theorem exhausted_budget_keeps_tokens_witness:
  "tokens (snd (updateChain exHelpers quietRemote acalaStore threeRpcChain)) =
     [(''acala-orml-AUSD'', ausdToken)] \<and>
   (\<exists>c. map_of (chains (snd (updateChain exHelpers quietRemote acalaStore threeRpcChain))) ''acala''
          = Some c \<and> \<not> c_isHealthy c)"
proof -
  note T = exhausted_budget_keeps_tokens [of quietRemote threeRpcChain exHelpers acalaStore]
  have fails: "attemptFails exHelpers quietRemote acalaStore threeRpcChain a" for a
    by (simp add: attemptFails_def attemptOutcome_def quietRemote_def)
  have cid: "c_id threeRpcChain = ''acala''"
    by (simp add: threeRpcChain_def newChain_def)
  from T [THEN conjunct1] fails show ?thesis
    by (simp add: cid acalaStore_def)
qed

subsection \<open>The chain step\<close>

lemma wfStore_chains: "wfStore st \<Longrightarrow> wfTable (\<lambda>c. Some (c_id c)) (chains st)"
  by (simp add: wfStore_def)

lemma chainsLoop_deletion_map:
  "set (fst (foldl chainsLoopBody acc gs)) = set (fst acc) - gc_id ` set gs"
proof (induction gs arbitrary: acc)
  case Nil
  then show ?case by simp
next
  case (Cons g gs)
  have "set (fst (chainsLoopBody acc g)) = set (fst acc) - {gc_id g}"
    by (auto simp: chainsLoopBody_def)
  then show ?case
    using Cons.IH [of "chainsLoopBody acc g"] by auto
qed


lemma chainsLoop_other_key:
  assumes "wfTable (\<lambda>c. Some (c_id c)) (chains (snd acc))" and "k \<notin> gc_id ` set gs"
  shows "map_of (chains (snd (foldl chainsLoopBody acc gs))) k = map_of (chains (snd acc)) k"
  using assms
proof (induction gs arbitrary: acc)
  case Nil
  then show ?case by simp
next
  case (Cons g gs)
  have "map_of (chains (snd (chainsLoopBody acc g))) k = map_of (chains (snd acc)) k"
    using Cons.prems
    by (simp add: chainsLoopBody_def saveChain_def update_conv' c_id_applyGithubChain)
  moreover have "map_of (chains (snd (foldl chainsLoopBody (chainsLoopBody acc g) gs))) k =
      map_of (chains (snd (chainsLoopBody acc g))) k"
    using Cons.prems by (intro Cons.IH wf_chainsLoopBody) simp_all
  ultimately show ?case by simp
qed


lemma map_of_updateChains:
  "map_of (chains (updateChainsFromGithub sh st)) k =
     (if k \<in> set (fst (foldl chainsLoopBody (map fst (chains st), st) (githubChains sh))) then None
      else map_of (chains (snd (foldl chainsLoopBody (map fst (chains st), st) (githubChains sh)))) k)"
  by (auto simp: updateChainsFromGithub_def Let_def map_of_deleteIds)




lemma updateChains_last_applied:
  assumes wf: "wfTable (\<lambda>c. Some (c_id c)) (chains st)"
    and split: "githubChains sh = pre @ g # post"
    and last: "gc_id g \<notin> gc_id ` set post"
  shows "map_of (chains (updateChainsFromGithub sh st)) (gc_id g) =
           Some (applyGithubChain (snd (foldl chainsLoopBody (map fst (chains st), st) pre)) g)"
proof -
  let ?a0 = "(map fst (chains st), st)"
  let ?a1 = "foldl chainsLoopBody ?a0 pre"
  let ?a2 = "chainsLoopBody ?a1 g"
  have wf1: "wfTable (\<lambda>c. Some (c_id c)) (chains (snd ?a1))"
    using wf by (intro wf_chainsLoop) simp
  have wf2: "wfTable (\<lambda>c. Some (c_id c)) (chains (snd ?a2))"
    using wf1 by (rule wf_chainsLoopBody)
  have at: "map_of (chains (snd ?a2)) (gc_id g) = Some (applyGithubChain (snd ?a1) g)"
    using wf1 by (simp add: chainsLoopBody_def saveChain_def update_conv' c_id_applyGithubChain)
  have "map_of (chains (snd (foldl chainsLoopBody ?a2 post))) (gc_id g) = map_of (chains (snd ?a2)) (gc_id g)"
    using wf2 last by (rule chainsLoop_other_key)
  then have "map_of (chains (snd (foldl chainsLoopBody ?a0 (githubChains sh)))) (gc_id g) =
      Some (applyGithubChain (snd ?a1) g)"
    using at by (simp add: split)
  moreover have "gc_id g \<notin> set (fst (foldl chainsLoopBody ?a0 (githubChains sh)))"
    unfolding split chainsLoop_deletion_map by simp
  ultimately show ?thesis by (simp add: map_of_updateChains)
qed

text \<open>
  C4. After the chain step, every persisted chain has its relay set iff its paraId is
  set. The chain the loop writes for a feed record has both fields empty when the record
  names no relay, when the relay it names is not in the store at that moment, or when the
  record has no paraId (a paraId of 0 counts as none: the test is on its truthiness).
\<close>

theorem parachain_relay_iff_paraId:
  assumes "wfStore st"
  shows "(\<forall>k c. map_of (chains (updateChainsFromGithub sh st)) k = Some c \<longrightarrow>
            (c_relay c \<noteq> None) = (c_paraId c \<noteq> None)) \<and>
         (\<forall>s g. (gc_relay g = None \<or>
                  (\<exists>r. gc_relay g = Some r \<and> (r = [] \<or> map_of (chains s) r = None)) \<or>
                  gc_paraId g = None \<or> gc_paraId g = Some 0)
                 \<longrightarrow> c_relay (applyGithubChain s g) = None \<and> c_paraId (applyGithubChain s g) = None)"
proof -
  have "(c_relay c \<noteq> None) = (c_paraId c \<noteq> None)"
    if "map_of (chains (updateChainsFromGithub sh st)) k = Some c" for k c
  proof -
    have "(c_relay c = None) = (c_paraId c = None)"
      using wfStore_chains [OF assms] _ that
      by (rule updateChains_all [where P = "\<lambda>c. (c_relay c = None) = (c_paraId c = None)"])
         (rule applyGithubChain_parachain)
    then show ?thesis by simp
  qed
  moreover have "c_relay (applyGithubChain s g) = None \<and> c_paraId (applyGithubChain s g) = None"
    if "gc_relay g = None \<or> (\<exists>r. gc_relay g = Some r \<and> (r = [] \<or> map_of (chains s) r = None)) \<or>
        gc_paraId g = None \<or> gc_paraId g = Some 0" for s g
    using that by (auto simp: applyGithubChain_def Let_def truthyNum_def split: option.splits if_splits)
  ultimately show ?thesis by blast
qed

lemma wfStore_emptyStore: "wfStore emptyStore"
  by (simp add: wfStore_def emptyStore_def wfTable_def)

text \<open>
  C4 at the feed that lists the parachain before its relay, on the empty store: the relay
  is not persisted yet when the parachain is written, and both fields are empty.
\<close>

theorem parachain_relay_iff_paraId_witness:
  "wfStore emptyStore \<and>
   (\<exists>c. map_of (chains (updateChainsFromGithub parachainFirstFeed emptyStore)) ''acala'' = Some c \<and>
        c_relay c = None \<and> c_paraId c = None \<and> (c_relay c \<noteq> None) = (c_paraId c \<noteq> None))"
proof -
  note T = parachain_relay_iff_paraId [OF wfStore_emptyStore, of parachainFirstFeed]
  have "map_of (chains (updateChainsFromGithub parachainFirstFeed emptyStore)) (gc_id acalaRecord) =
      Some (applyGithubChain (snd (foldl chainsLoopBody (map fst (chains emptyStore), emptyStore) [])) acalaRecord)"
    by (rule updateChains_last_applied [where post = "[polkadotRecord]"])
       (simp_all add: emptyStore_def wfTable_Nil parachainFirstFeed_def acalaRecord_def polkadotRecord_def)
  then have at: "map_of (chains (updateChainsFromGithub parachainFirstFeed emptyStore)) ''acala'' =
      Some (applyGithubChain emptyStore acalaRecord)"
    by (simp add: acalaRecord_def emptyStore_def)
  have "c_relay (applyGithubChain emptyStore acalaRecord) = None \<and>
      c_paraId (applyGithubChain emptyStore acalaRecord) = None"
    using T [THEN conjunct2, rule_format, of acalaRecord emptyStore]
    by (simp add: acalaRecord_def emptyStore_def)
  moreover have "(c_relay (applyGithubChain emptyStore acalaRecord) \<noteq> None) =
      (c_paraId (applyGithubChain emptyStore acalaRecord) \<noteq> None)"
    using T [THEN conjunct1, rule_format, OF at] .
  ultimately show ?thesis
    using at wfStore_emptyStore by simp
qed

subsection \<open>Saving every row of a table\<close>

lemma update_in_place:
  "k \<notin> fst ` set xs \<Longrightarrow> AList.update k v (xs @ (k, w) # ys) = xs @ (k, v) # ys"
  by (induction xs) auto

lemma save_all_rows_aux:
  assumes "distinct (map fst (done @ todo))"
    and "\<forall>p \<in> set todo. key (f (snd p)) = fst p"
  shows "foldl (\<lambda>tb v. AList.update (key v) v tb) (map (\<lambda>p. (fst p, f (snd p))) done @ todo)
           (map f (map snd todo)) =
         map (\<lambda>p. (fst p, f (snd p))) (done @ todo)"
  using assms
proof (induction todo arbitrary: "done")
  case Nil
  then show ?case by simp
next
  case (Cons p todo)
  have notin: "fst p \<notin> fst ` set (map (\<lambda>p. (fst p, f (snd p))) done)"
    using Cons.prems(1) by (auto simp: image_iff)
  have k: "key (f (snd p)) = fst p" using Cons.prems(2) by simp
  have "AList.update (fst p) (f (snd p)) (map (\<lambda>p. (fst p, f (snd p))) done @ (fst p, snd p) # todo) =
      map (\<lambda>p. (fst p, f (snd p))) done @ (fst p, f (snd p)) # todo"
    using notin by (rule update_in_place)
  then have step: "AList.update (key (f (snd p))) (f (snd p)) (map (\<lambda>p. (fst p, f (snd p))) done @ p # todo) =
      map (\<lambda>p. (fst p, f (snd p))) (done @ [p]) @ todo"
    by (simp add: k)
  have "foldl (\<lambda>tb v. AList.update (key v) v tb) (map (\<lambda>p. (fst p, f (snd p))) (done @ [p]) @ todo)
           (map f (map snd todo)) = map (\<lambda>p. (fst p, f (snd p))) ((done @ [p]) @ todo)"
    using Cons.prems by (intro Cons.IH) simp_all
  then show ?case
    by (simp only: list.map foldl_Cons step) simp
qed

lemma save_all_rows:
  assumes "distinct (map fst tbl)" and "\<forall>p \<in> set tbl. key (f (snd p)) = fst p"
  shows "foldl (\<lambda>tb v. AList.update (key v) v tb) tbl (map f (map snd tbl)) =
         map (\<lambda>p. (fst p, f (snd p))) tbl"
  using save_all_rows_aux [of "[]" tbl key f] assms by simp

lemma foldl_saveTokenEntity:
  "foldl (\<lambda>s t. saveTokenEntity t s) st ts =
     st\<lparr>tokens := foldl (\<lambda>tb v. AList.update (t_id v) v tb) (tokens st) ts\<rparr>"
  by (induction ts arbitrary: st) (simp_all add: saveTokenEntity_def)

lemma save_all_tokens:
  assumes "wfTable (\<lambda>t. Some (t_id t)) (tokens st)" and "\<And>t. t_id (f t) = t_id t"
  shows "foldl (\<lambda>s t. saveTokenEntity t s) st (map f (map snd (tokens st))) =
           st\<lparr>tokens := map (\<lambda>p. (fst p, f (snd p))) (tokens st)\<rparr>"
proof -
  have "foldl (\<lambda>tb v. AList.update (t_id v) v tb) (tokens st) (map f (map snd (tokens st))) =
      map (\<lambda>p. (fst p, f (snd p))) (tokens st)"
    using assms by (intro save_all_rows) (auto simp: wfTable_def)
  then show ?thesis by (simp add: foldl_saveTokenEntity)
qed

lemma map_of_map_rows:
  "map_of (map (\<lambda>p. (fst p, f (snd p))) tbl) k = map_option f (map_of tbl k)"
  by (induction tbl) auto

lemma wfTable_map_rows:
  "wfTable key tbl \<Longrightarrow> (\<And>v. key (f v) = key v) \<Longrightarrow> wfTable key (map (\<lambda>p. (fst p, f (snd p))) tbl)"
  by (auto simp: wfTable_def comp_def)

subsection \<open>The testnet flag and the quotes of the tokens\<close>

lemma set_map_filter: "set (List.map_filter m ks) = {v. \<exists>k \<in> set ks. m k = Some v}"
  by (induction ks) (auto simp: List.map_filter_simps split: option.splits)

lemma list_all_flags:
  "list_all (\<lambda>b. b) (map f xs @ map g ys) = ((\<forall>x \<in> set xs. f x) \<and> (\<forall>y \<in> set ys. g y))"
  by (auto simp: list_all_iff)

lemma set_refs: "set (refs x xs) = (case x of None \<Rightarrow> {} | Some i \<Rightarrow> {i}) \<union> set xs"
  by (simp add: refs_def split: option.splits)

lemma set_nativeToChains:
  "distinct (map fst (chains st)) \<Longrightarrow>
   set (squidImplementationDetailNativeToChains st t) =
     {i. \<exists>c. map_of (chains st) i = Some c \<and> c_nativeToken c = Some (t_id t)}"
  by (auto simp: squidImplementationDetailNativeToChains_def image_iff)

lemma set_nativeToEvmNetworks:
  "distinct (map fst (evmNetworks st)) \<Longrightarrow>
   set (squidImplementationDetailNativeToEvmNetworks st t) =
     {i. \<exists>n. map_of (evmNetworks st) i = Some n \<and> n_nativeToken n = Some (t_id t)}"
  by (auto simp: squidImplementationDetailNativeToEvmNetworks_def image_iff)

lemma isTestnetToken_iff:
  assumes "distinct (map fst (chains st))" and "distinct (map fst (evmNetworks st))"
  shows "isTestnetToken st t =
     ((\<forall>i c. map_of (chains st) i = Some c \<and>
              (t_squidImplementationDetailChain t = Some i \<or> c_nativeToken c = Some (t_id t))
              \<longrightarrow> c_isTestnet c) \<and>
      (\<forall>i n. map_of (evmNetworks st) i = Some n \<and>
              (t_squidImplementationDetailEvmNetwork t = Some i \<or> n_nativeToken n = Some (t_id t))
              \<longrightarrow> n_isTestnet n))"
proof -
  have c: "(\<forall>c \<in> set (List.map_filter (map_of (chains st))
                (refs (t_squidImplementationDetailChain t) (squidImplementationDetailNativeToChains st t))).
              c_isTestnet c) =
      (\<forall>i c. map_of (chains st) i = Some c \<and>
              (t_squidImplementationDetailChain t = Some i \<or> c_nativeToken c = Some (t_id t))
              \<longrightarrow> c_isTestnet c)"
    unfolding set_map_filter set_refs set_nativeToChains [OF assms(1)]
    by (cases "t_squidImplementationDetailChain t") auto
  have n: "(\<forall>n \<in> set (List.map_filter (map_of (evmNetworks st))
                (refs (t_squidImplementationDetailEvmNetwork t) (squidImplementationDetailNativeToEvmNetworks st t))).
              n_isTestnet n) =
      (\<forall>i n. map_of (evmNetworks st) i = Some n \<and>
              (t_squidImplementationDetailEvmNetwork t = Some i \<or> n_nativeToken n = Some (t_id t))
              \<longrightarrow> n_isTestnet n)"
    unfolding set_map_filter set_refs set_nativeToEvmNetworks [OF assms(2)]
    by (cases "t_squidImplementationDetailEvmNetwork t") auto
  show ?thesis
    unfolding isTestnetToken_def list_all_flags c n ..
qed

lemma updateTokensTestnetField_eq:
  assumes "wfTable (\<lambda>t. Some (t_id t)) (tokens st)"
  shows "updateTokensTestnetField st =
     st\<lparr>tokens := map (\<lambda>p. (fst p, (snd p)\<lparr>t_squidImplementationDetail :=
                                (t_squidImplementationDetail (snd p))
                                  \<lparr>d_isTestnet := isTestnetToken st (snd p)\<rparr>\<rparr>)) (tokens st)\<rparr>"
  unfolding updateTokensTestnetField_def Let_def
  by (rule save_all_tokens [OF assms]) simp

text \<open>
  C5. After the testnet step every token carries the conjunction of the testnet flags of
  the chains and EVM networks that reference it: the chain and the network it is anchored
  to, and the chains and networks whose native token it is. The conjunction over no
  reference is true.
\<close>

theorem token_testnet_flag_is_conjunction:
  assumes "wfStore st" and "map_of (tokens st) k = Some t"
  shows "\<exists>t'. map_of (tokens (updateTokensTestnetField st)) k = Some t' \<and>
      d_isTestnet (t_squidImplementationDetail t') =
        ((\<forall>i c. map_of (chains st) i = Some c \<and>
                 (t_squidImplementationDetailChain t = Some i \<or> c_nativeToken c = Some (t_id t))
                 \<longrightarrow> c_isTestnet c) \<and>
         (\<forall>i n. map_of (evmNetworks st) i = Some n \<and>
                 (t_squidImplementationDetailEvmNetwork t = Some i \<or> n_nativeToken n = Some (t_id t))
                 \<longrightarrow> n_isTestnet n))"
proof -
  have wf: "wfTable (\<lambda>t. Some (t_id t)) (tokens st)" "distinct (map fst (chains st))"
    "distinct (map fst (evmNetworks st))"
    using assms(1) by (simp_all add: wfStore_def wfTable_def)
  have "map_of (tokens (updateTokensTestnetField st)) k =
      Some (t\<lparr>t_squidImplementationDetail :=
                (t_squidImplementationDetail t)\<lparr>d_isTestnet := isTestnetToken st t\<rparr>\<rparr>)"
    using map_of_map_rows [of "\<lambda>v. v\<lparr>t_squidImplementationDetail :=
                (t_squidImplementationDetail v)\<lparr>d_isTestnet := isTestnetToken st v\<rparr>\<rparr>" "tokens st" k]
    by (simp add: updateTokensTestnetField_eq [OF wf(1)] assms(2))
  then show ?thesis
    by (simp add: isTestnetToken_iff [OF wf(2,3)])
qed

lemma updateTokenRates_eq:
  assumes "wfTable (\<lambda>t. Some (t_id t)) (tokens st)"
    and "simplePrice rm (coingeckoIdsOf st) coingeckoCurrencies = Some prices"
  shows "updateTokenRates rm st =
     Some (st\<lparr>tokens := map (\<lambda>p. (fst p, (snd p)\<lparr>t_squidImplementationDetail :=
                                (t_squidImplementationDetail (snd p))
                                  \<lparr>d_rates := ratesOf prices (t_squidImplementationDetail (snd p))\<rparr>\<rparr>))
                           (tokens st)\<rparr>)"
  unfolding updateTokenRates_def Let_def assms(2) option.case
  by (simp only: option.inject) (rule save_all_tokens [OF assms(1)], simp)

text \<open>
  C7. When the price feed answers, the price step succeeds, and every token gets a new
  quote snapshot: none if the token is a testnet token, has no price-feed id (none, or
  the empty string) or has no entry in the answer; otherwise one quote per configured
  currency, each as the answer's entry for the token gives it.
\<close>

theorem token_rates_cleared_or_relayed:
  assumes "wfStore st"
    and "simplePrice rm (coingeckoIdsOf st) coingeckoCurrencies = Some prices"
    and "map_of (tokens st) k = Some t"
  shows "\<exists>st' t'. updateTokenRates rm st = Some st' \<and> map_of (tokens st') k = Some t' \<and>
      ((d_isTestnet (t_squidImplementationDetail t) \<or>
        d_coingeckoId (t_squidImplementationDetail t) = None \<or>
        d_coingeckoId (t_squidImplementationDetail t) = Some [] \<or>
        (\<exists>cg. d_coingeckoId (t_squidImplementationDetail t) = Some cg \<and> map_of prices cg = None))
       \<longrightarrow> d_rates (t_squidImplementationDetail t') = None) \<and>
      (\<forall>cg quotes. \<not> d_isTestnet (t_squidImplementationDetail t) \<and>
          d_coingeckoId (t_squidImplementationDetail t) = Some cg \<and> cg \<noteq> [] \<and>
          map_of prices cg = Some quotes
          \<longrightarrow> d_rates (t_squidImplementationDetail t') =
                Some (map (\<lambda>currency. (currency, map_of quotes currency)) coingeckoCurrencies))"
proof -
  have wf: "wfTable (\<lambda>t. Some (t_id t)) (tokens st)"
    using assms(1) by (simp add: wfStore_def)
  note eq = updateTokenRates_eq [OF wf assms(2)]
  have "map_of (tokens (the (updateTokenRates rm st))) k =
      Some (t\<lparr>t_squidImplementationDetail :=
                (t_squidImplementationDetail t)
                  \<lparr>d_rates := ratesOf prices (t_squidImplementationDetail t)\<rparr>\<rparr>)"
    using map_of_map_rows [of "\<lambda>v. v\<lparr>t_squidImplementationDetail :=
                (t_squidImplementationDetail v)
                  \<lparr>d_rates := ratesOf prices (t_squidImplementationDetail v)\<rparr>\<rparr>" "tokens st" k]
    by (simp add: eq assms(3))
  then show ?thesis
    unfolding eq by (auto simp: ratesOf_def)
qed

text \<open>
  C5 at a token that is the native token of a testnet chain and of a mainnet chain: its
  flag is false; and at a token that nothing references: its flag is true.
\<close>

theorem token_testnet_flag_is_conjunction_witness:
  "wfStore twoChainStore \<and>
   (\<exists>t'. map_of (tokens (updateTokensTestnetField twoChainStore)) ''tok'' = Some t' \<and>
         \<not> d_isTestnet (t_squidImplementationDetail t')) \<and>
   (\<exists>t'. map_of (tokens (updateTokensTestnetField twoChainStore)) ''orphan'' = Some t' \<and>
         d_isTestnet (t_squidImplementationDetail t'))"
proof -
  have wf: "wfStore twoChainStore"
    by (simp add: wfStore_def wfTable_def twoChainStore_def newChain_def sharedToken_def
        orphanToken_def testnetChainA_def mainnetChainB_def)
  have tok: "map_of (tokens twoChainStore) ''tok'' = Some sharedToken"
    and orphan: "map_of (tokens twoChainStore) ''orphan'' = Some orphanToken"
    by (simp_all add: twoChainStore_def)
  have b: "map_of (chains twoChainStore) ''b'' = Some mainnetChainB"
    by (simp add: twoChainStore_def)
  have natives: "c_nativeToken c = Some ''tok''" if "map_of (chains twoChainStore) i = Some c" for i c
    using that by (auto simp: twoChainStore_def testnetChainA_def mainnetChainB_def split: if_splits)
  obtain t1 where t1: "map_of (tokens (updateTokensTestnetField twoChainStore)) ''tok'' = Some t1"
    and flag1: "d_isTestnet (t_squidImplementationDetail t1) =
        ((\<forall>i c. map_of (chains twoChainStore) i = Some c \<and>
                 (t_squidImplementationDetailChain sharedToken = Some i \<or>
                  c_nativeToken c = Some (t_id sharedToken))
                 \<longrightarrow> c_isTestnet c) \<and>
         (\<forall>i n. map_of (evmNetworks twoChainStore) i = Some n \<and>
                 (t_squidImplementationDetailEvmNetwork sharedToken = Some i \<or>
                  n_nativeToken n = Some (t_id sharedToken))
                 \<longrightarrow> n_isTestnet n))"
    using token_testnet_flag_is_conjunction [OF wf tok] by blast
  have "\<not> d_isTestnet (t_squidImplementationDetail t1)"
  proof
    assume "d_isTestnet (t_squidImplementationDetail t1)"
    then have "c_isTestnet mainnetChainB"
      using flag1 b by (simp add: sharedToken_def mainnetChainB_def)
    then show False by (simp add: mainnetChainB_def newChain_def)
  qed
  moreover
  obtain t2 where t2: "map_of (tokens (updateTokensTestnetField twoChainStore)) ''orphan'' = Some t2"
    and flag2: "d_isTestnet (t_squidImplementationDetail t2) =
        ((\<forall>i c. map_of (chains twoChainStore) i = Some c \<and>
                 (t_squidImplementationDetailChain orphanToken = Some i \<or>
                  c_nativeToken c = Some (t_id orphanToken))
                 \<longrightarrow> c_isTestnet c) \<and>
         (\<forall>i n. map_of (evmNetworks twoChainStore) i = Some n \<and>
                 (t_squidImplementationDetailEvmNetwork orphanToken = Some i \<or>
                  n_nativeToken n = Some (t_id orphanToken))
                 \<longrightarrow> n_isTestnet n))"
    using token_testnet_flag_is_conjunction [OF wf orphan] by blast
  have "d_isTestnet (t_squidImplementationDetail t2)"
  proof -
    have "c_nativeToken c \<noteq> Some (t_id orphanToken)" if "map_of (chains twoChainStore) i = Some c" for i c
      using natives [OF that] by (simp add: orphanToken_def)
    moreover have "evmNetworks twoChainStore = []"
      by (simp add: twoChainStore_def)
    moreover have "t_squidImplementationDetailChain orphanToken = None"
      by (simp add: orphanToken_def)
    ultimately show ?thesis
      unfolding flag2 by auto
  qed
  ultimately show ?thesis using wf t1 t2 by blast
qed

text \<open>
  C7 at two tokens that carry a quote of an earlier run: the one the feed answers for gets
  the two quotes of the answer, the one the feed has no entry for gets none.
\<close>

theorem token_rates_cleared_or_relayed_witness:
  "wfStore quotedStore \<and>
   (\<exists>st' t'. updateTokenRates priceRemote quotedStore = Some st' \<and>
      map_of (tokens st') ''old'' = Some t' \<and> d_rates (t_squidImplementationDetail t') = None) \<and>
   (\<exists>st' t'. updateTokenRates priceRemote quotedStore = Some st' \<and>
      map_of (tokens st') ''dot'' = Some t' \<and>
      d_rates (t_squidImplementationDetail t') = Some [(''usd'', Some 5), (''eur'', Some 4)])"
proof -
  have wf: "wfStore quotedStore"
    by (simp add: wfStore_def wfTable_def quotedStore_def quotedToken_def)
  have feed: "simplePrice priceRemote (coingeckoIdsOf quotedStore) coingeckoCurrencies =
      Some [(''polkadot'', [(''usd'', 5), (''eur'', 4)])]"
    by (simp add: priceRemote_def quietRemote_def)
  have dot: "map_of (tokens quotedStore) ''dot'' = Some (quotedToken ''dot'' ''polkadot'')"
    and old: "map_of (tokens quotedStore) ''old'' = Some (quotedToken ''old'' ''delisted'')"
    by (simp_all add: quotedStore_def)
  have "\<exists>st' t'. updateTokenRates priceRemote quotedStore = Some st' \<and>
      map_of (tokens st') ''old'' = Some t' \<and> d_rates (t_squidImplementationDetail t') = None"
    using token_rates_cleared_or_relayed [OF wf feed old]
    by (auto simp: quotedToken_def newTokenDetail_def)
  moreover have "\<exists>st' t'. updateTokenRates priceRemote quotedStore = Some st' \<and>
      map_of (tokens st') ''dot'' = Some t' \<and>
      d_rates (t_squidImplementationDetail t') = Some [(''usd'', Some 5), (''eur'', Some 4)]"
    using token_rates_cleared_or_relayed [OF wf feed dot]
    by (auto simp: quotedToken_def newTokenDetail_def coingeckoCurrencies_def)
  ultimately show ?thesis using wf by blast
qed

subsection \<open>The native token of a standalone network\<close>

lemma probe_keeps_fields:
  "n_name (probeEvmNetwork rm n) = n_name n \<and>
   n_isTestnet (probeEvmNetwork rm n) = n_isTestnet n \<and>
   n_substrateChain (probeEvmNetwork rm n) = n_substrateChain n \<and>
   n_explorerUrl (probeEvmNetwork rm n) = n_explorerUrl n \<and>
   n_nativeToken (probeEvmNetwork rm n) = n_nativeToken n \<and>
   n_sortIndex (probeEvmNetwork rm n) = n_sortIndex n"
  by (simp add: probeEvmNetwork_def Let_def split: list.splits)

lemma standaloneEntity_fields:
  "n_name (standaloneEntity st g) = gn_name g \<and> n_substrateChain (standaloneEntity st g) = None"
  by (simp add: standaloneEntity_def Let_def)

lemma d_id_getOrCreateToken: "d_id (getOrCreateToken st k i) = i"
  by (simp add: getOrCreateToken_def newTokenDetail_def split: option.splits)





subsection \<open>The EVM network step\<close>

lemma provision_entity: "snd (provisionEvmNetwork h gh acc n) = savedEntity h gh n"
  by (simp add: provisionEvmNetwork_def savedEntity_def Let_def d_id_getOrCreateToken
      split: option.splits)

lemma savedEntity_fields:
  assumes "savedEntity h gh n = Some n'"
  shows "n_id n' = n_id n" and "n_id n \<noteq> None" and "n_substrateChain n' = n_substrateChain n"
    and "n_isTestnet n' = n_isTestnet n" and "n_name n' = n_name n" and "n_rpcs n' = n_rpcs n"
    and "n_isHealthy n' = n_isHealthy n"
  using assms by (auto simp: savedEntity_def split: option.splits if_splits)

lemma provision_state:
  "fst (fst (provisionEvmNetwork h gh acc n)) =
     (case n_id n of
        None \<Rightarrow> fst acc
      | Some i \<Rightarrow> if n_substrateChain n = None then removeAll i (fst acc) else fst acc) \<and>
   fst (snd (fst (provisionEvmNetwork h gh acc n))) =
     (case n_id n of
        None \<Rightarrow> fst (snd acc)
      | Some i \<Rightarrow> if n_substrateChain n \<noteq> None then removeAll i (fst (snd acc)) else fst (snd acc)) \<and>
   chains (snd (snd (fst (provisionEvmNetwork h gh acc n)))) = chains (snd (snd acc)) \<and>
   evmNetworks (snd (snd (fst (provisionEvmNetwork h gh acc n)))) = evmNetworks (snd (snd acc))"
  by (auto simp: provisionEvmNetwork_def Let_def isStandaloneEvmNetwork_def isSubstrateEvmNetwork_def
      saveToken_def saveTokenEntity_def split: option.splits)

lemma loopBody_state:
  "fst (evmNetworkLoopBody h rm gh acc e) =
     fst (provisionEvmNetwork h gh (fst acc) (probeEvmNetwork rm e))"
  by (simp add: evmNetworkLoopBody_def Let_def)

lemma pass_loop_updates:
  "snd (foldl (evmNetworkLoopBody h rm gh) acc es) =
     snd acc @ List.map_filter (\<lambda>e. savedEntity h gh (probeEvmNetwork rm e)) es"
proof (induction es arbitrary: acc)
  case Nil
  then show ?case by (simp add: List.map_filter_simps)
next
  case (Cons e es)
  have "snd (evmNetworkLoopBody h rm gh acc e) =
      snd acc @ (case savedEntity h gh (probeEvmNetwork rm e) of None \<Rightarrow> [] | Some n \<Rightarrow> [n])"
    by (simp add: evmNetworkLoopBody_def Let_def provision_entity)
  then show ?case
    by (simp add: Cons.IH List.map_filter_simps split: option.splits)
qed

lemma pass_loop_tables:
  "chains (snd (snd (fst (foldl (evmNetworkLoopBody h rm gh) acc es)))) = chains (snd (snd (fst acc))) \<and>
   evmNetworks (snd (snd (fst (foldl (evmNetworkLoopBody h rm gh) acc es)))) =
     evmNetworks (snd (snd (fst acc)))"
proof (induction es arbitrary: acc)
  case Nil
  then show ?case by simp
next
  case (Cons e es)
  have "chains (snd (snd (fst (evmNetworkLoopBody h rm gh acc e)))) = chains (snd (snd (fst acc))) \<and>
      evmNetworks (snd (snd (fst (evmNetworkLoopBody h rm gh acc e)))) = evmNetworks (snd (snd (fst acc)))"
    using provision_state [of h gh "fst acc" "probeEvmNetwork rm e"]
    by (simp add: loopBody_state)
  then show ?case
    using Cons.IH [of "evmNetworkLoopBody h rm gh acc e"] by simp
qed

text \<open>The ids the probing pass takes out of the two deletion maps.\<close>

lemma pass_loop_deleted:
  "set (fst (fst (foldl (evmNetworkLoopBody h rm gh) acc es))) =
     set (fst (fst acc)) -
       {i. \<exists>e \<in> set es. n_id (probeEvmNetwork rm e) = Some i \<and> n_substrateChain e = None} \<and>
   set (fst (snd (fst (foldl (evmNetworkLoopBody h rm gh) acc es)))) =
     set (fst (snd (fst acc))) -
       {i. \<exists>e \<in> set es. n_id (probeEvmNetwork rm e) = Some i \<and> n_substrateChain e \<noteq> None}"
proof (induction es arbitrary: acc)
  case Nil
  then show ?case by simp
next
  case (Cons e es)
  let ?n = "probeEvmNetwork rm e"
  have sub: "n_substrateChain ?n = n_substrateChain e"
    by (simp add: probe_keeps_fields)
  have one: "set (fst (fst (evmNetworkLoopBody h rm gh acc e))) =
      set (fst (fst acc)) - {i. n_id ?n = Some i \<and> n_substrateChain e = None}"
    and two: "set (fst (snd (fst (evmNetworkLoopBody h rm gh acc e)))) =
      set (fst (snd (fst acc))) - {i. n_id ?n = Some i \<and> n_substrateChain e \<noteq> None}"
    using provision_state [of h gh "fst acc" ?n]
    by (auto simp: loopBody_state sub split: option.splits)
  show ?case
    using Cons.IH [of "evmNetworkLoopBody h rm gh acc e"] one two by auto
qed

lemma find_snoc:
  "find P (xs @ [x]) = (case find P xs of None \<Rightarrow> (if P x then Some x else None) | Some y \<Rightarrow> Some y)"
  by (induction xs) simp_all

lemma map_of_save_all_networks:
  "map_of (evmNetworks (foldl (\<lambda>s n. saveEvmNetwork n s) st ns)) i =
     (case find (\<lambda>n. n_id n = Some i) (rev ns) of
        None \<Rightarrow> map_of (evmNetworks st) i
      | Some n \<Rightarrow> Some n)"
proof (induction ns arbitrary: st)
  case Nil
  then show ?case by simp
next
  case (Cons n ns)
  have "map_of (evmNetworks (saveEvmNetwork n st)) i =
      (if n_id n = Some i then Some n else map_of (evmNetworks st) i)"
    by (auto simp: saveEvmNetwork_def update_conv' split: option.splits)
  then show ?case
    by (simp add: Cons.IH find_snoc split: option.splits)
qed

lemma save_all_networks_chains:
  "chains (foldl (\<lambda>s n. saveEvmNetwork n s) st ns) = chains st \<and>
   tokens (foldl (\<lambda>s n. saveEvmNetwork n s) st ns) = tokens st"
  by (induction ns arbitrary: st) (simp_all add: saveEvmNetwork_def split: option.splits)

lemma evmNetworkUpdates_eq:
  "evmNetworkUpdates h rm sh st =
     List.map_filter (\<lambda>e. savedEntity h (githubEvmNetworks sh) (probeEvmNetwork rm e))
       (evmNetworkEntities st (githubEvmNetworks sh))"
  by (simp add: evmNetworkUpdates_def evmNetworkPass_def Let_def pass_loop_updates)

lemma in_evmNetworkUpdates:
  "(n \<in> set (evmNetworkUpdates h rm sh st)) =
   (\<exists>e \<in> set (evmNetworkEntities st (githubEvmNetworks sh)).
      savedEntity h (githubEvmNetworks sh) (probeEvmNetwork rm e) = Some n)"
  by (auto simp: evmNetworkUpdates_eq set_map_filter)

lemma probed_id_iff_update:
  "(\<exists>e \<in> set (evmNetworkEntities st (githubEvmNetworks sh)).
      n_id (probeEvmNetwork rm e) = Some i \<and> Q (n_substrateChain e)) =
   (\<exists>n \<in> set (evmNetworkUpdates h rm sh st). n_id n = Some i \<and> Q (n_substrateChain n))"
proof
  assume "\<exists>e \<in> set (evmNetworkEntities st (githubEvmNetworks sh)).
      n_id (probeEvmNetwork rm e) = Some i \<and> Q (n_substrateChain e)"
  then obtain e where e: "e \<in> set (evmNetworkEntities st (githubEvmNetworks sh))"
    "n_id (probeEvmNetwork rm e) = Some i" "Q (n_substrateChain e)" by blast
  then have "savedEntity h (githubEvmNetworks sh) (probeEvmNetwork rm e) \<noteq> None"
    by (simp add: savedEntity_def)
  then obtain n where n: "savedEntity h (githubEvmNetworks sh) (probeEvmNetwork rm e) = Some n"
    by blast
  have "n_id n = Some i" "n_substrateChain n = n_substrateChain e"
    using savedEntity_fields(1,3) [OF n] e(2) by (simp_all add: probe_keeps_fields)
  moreover have "n \<in> set (evmNetworkUpdates h rm sh st)"
    using e(1) n in_evmNetworkUpdates by blast
  ultimately show "\<exists>n \<in> set (evmNetworkUpdates h rm sh st). n_id n = Some i \<and> Q (n_substrateChain n)"
    using e(3) by auto
next
  assume "\<exists>n \<in> set (evmNetworkUpdates h rm sh st). n_id n = Some i \<and> Q (n_substrateChain n)"
  then obtain n where nin: "n \<in> set (evmNetworkUpdates h rm sh st)"
    and i: "n_id n = Some i" and q: "Q (n_substrateChain n)" by blast
  from nin obtain e where e: "e \<in> set (evmNetworkEntities st (githubEvmNetworks sh))"
    and n: "savedEntity h (githubEvmNetworks sh) (probeEvmNetwork rm e) = Some n"
    using in_evmNetworkUpdates by blast
  have "n_id (probeEvmNetwork rm e) = Some i" "n_substrateChain n = n_substrateChain e"
    using savedEntity_fields(1,3) [OF n] i by (simp_all add: probe_keeps_fields)
  with e q show "\<exists>e \<in> set (evmNetworkEntities st (githubEvmNetworks sh)).
      n_id (probeEvmNetwork rm e) = Some i \<and> Q (n_substrateChain e)" by auto
qed

lemma no_invalid_network:
  "filter (\<lambda>p. isInvalidEvmNetwork (Inl (snd p))) tbl = []"
  by (auto simp: isInvalidEvmNetwork_def isStandaloneEvmNetwork_def isSubstrateEvmNetwork_def
      filter_empty_conv)

text \<open>The row of an id after the step.\<close>

lemma map_of_updateEvmNetworks:
  "map_of (evmNetworks (updateEvmNetworksFromGithub h rm sh st)) i =
     (if (\<exists>m. (i, m) \<in> set (evmNetworks st) \<and> n_substrateChain m = None) \<and>
          \<not> (\<exists>n \<in> set (evmNetworkUpdates h rm sh st). n_id n = Some i \<and> n_substrateChain n = None) \<or>
         (\<exists>m. (i, m) \<in> set (evmNetworks st) \<and> n_substrateChain m \<noteq> None) \<and>
          \<not> (\<exists>n \<in> set (evmNetworkUpdates h rm sh st). n_id n = Some i \<and> n_substrateChain n \<noteq> None)
      then None
      else (case find (\<lambda>n. n_id n = Some i) (rev (evmNetworkUpdates h rm sh st)) of
              None \<Rightarrow> map_of (evmNetworks st) i
            | Some n \<Rightarrow> Some n))"
proof -
  let ?gh = "githubEvmNetworks sh"
  let ?a0 = "((map fst (filter (\<lambda>p. isStandaloneEvmNetwork (Inl (snd p))) (evmNetworks st)),
               map fst (filter (\<lambda>p. isSubstrateEvmNetwork (Inl (snd p))) (evmNetworks st)), st), [])"
  let ?r = "foldl (evmNetworkLoopBody h rm ?gh) ?a0 (evmNetworkEntities st ?gh)"
  have r: "evmNetworkPass h rm sh st = ?r"
    by (simp add: evmNetworkPass_def Let_def)
  have ups: "snd ?r = evmNetworkUpdates h rm sh st"
    by (simp add: evmNetworkUpdates_def r)
  have tbl: "evmNetworks (snd (snd (fst ?r))) = evmNetworks st"
    using pass_loop_tables [of h rm ?gh ?a0 "evmNetworkEntities st ?gh"] by simp
  have ds: "set (fst (fst ?r)) =
      {i. \<exists>m. (i, m) \<in> set (evmNetworks st) \<and> n_substrateChain m = None} -
      {i. \<exists>n \<in> set (evmNetworkUpdates h rm sh st). n_id n = Some i \<and> n_substrateChain n = None}"
    using pass_loop_deleted [of h rm ?gh ?a0 "evmNetworkEntities st ?gh", THEN conjunct1]
      probed_id_iff_update [of st sh rm _ "\<lambda>x. x = None" h]
    by (auto simp: isStandaloneEvmNetwork_def image_iff)
  have dl: "set (fst (snd (fst ?r))) =
      {i. \<exists>m. (i, m) \<in> set (evmNetworks st) \<and> n_substrateChain m \<noteq> None} -
      {i. \<exists>n \<in> set (evmNetworkUpdates h rm sh st). n_id n = Some i \<and> n_substrateChain n \<noteq> None}"
    using pass_loop_deleted [of h rm ?gh ?a0 "evmNetworkEntities st ?gh", THEN conjunct2]
      probed_id_iff_update [of st sh rm _ "\<lambda>x. x \<noteq> None" h]
    by (auto simp: isSubstrateEvmNetwork_def image_iff)
  have "map_of (evmNetworks (updateEvmNetworksFromGithub h rm sh st)) i =
      (if i \<in> set (fst (fst ?r)) \<union> set (fst (snd (fst ?r))) then None
       else map_of (evmNetworks (foldl (\<lambda>s n. saveEvmNetwork n s) (snd (snd (fst ?r))) (snd ?r))) i)"
    unfolding updateEvmNetworksFromGithub_def Let_def r no_invalid_network
    by (auto simp: map_of_deleteIds)
  also have "\<dots> = (if i \<in> set (fst (fst ?r)) \<union> set (fst (snd (fst ?r))) then None
       else (case find (\<lambda>n. n_id n = Some i) (rev (evmNetworkUpdates h rm sh st)) of
              None \<Rightarrow> map_of (evmNetworks st) i
            | Some n \<Rightarrow> Some n))"
    by (simp only: map_of_save_all_networks tbl ups)
  finally show ?thesis
    unfolding ds dl by (auto split: option.splits)
qed

lemma step_rows_saved:
  assumes "map_of (evmNetworks (updateEvmNetworksFromGithub h rm sh st)) i = Some n"
  shows "find (\<lambda>n. n_id n = Some i) (rev (evmNetworkUpdates h rm sh st)) = Some n"
proof (cases "find (\<lambda>n. n_id n = Some i) (rev (evmNetworkUpdates h rm sh st))")
  case None
  then have no: "\<not> (\<exists>n \<in> set (evmNetworkUpdates h rm sh st). n_id n = Some i \<and> Q n)" for Q
    by (auto simp: find_None_iff)
  have "map_of (evmNetworks st) i = Some n"
    using assms unfolding map_of_updateEvmNetworks None by (simp split: if_splits)
  then have "(i, n) \<in> set (evmNetworks st)"
    by (rule map_of_SomeD)
  then have "map_of (evmNetworks (updateEvmNetworksFromGithub h rm sh st)) i = None"
    unfolding map_of_updateEvmNetworks using no by (cases "n_substrateChain n") auto
  with assms show ?thesis by simp
next
  case (Some m)
  then show ?thesis
    using assms unfolding map_of_updateEvmNetworks by (simp split: if_splits)
qed

lemma find_Some_mem: "find P xs = Some x \<Longrightarrow> x \<in> set xs \<and> P x"
  by (induction xs) (auto split: if_splits)

lemma entity_origin:
  assumes "e \<in> set (evmNetworkEntities st gh)" and "n_substrateChain e \<noteq> None"
  shows "\<exists>g \<in> set gh. substrateEntity st g = Some e"
  using assms
  by (auto simp: evmNetworkEntities_def Let_def set_map_filter standaloneEntity_fields)

lemma substrateEntity_fields:
  assumes "substrateEntity st g = Some e"
  shows "\<exists>k c. gn_substrateChainId g = Some k \<and> map_of (chains st) k = Some c \<and>
           n_substrateChain e = Some (c_id c) \<and> n_isTestnet e = c_isTestnet c \<and>
           n_name e = (if truthyStr (gn_name g) then gn_name g else c_name c)"
  using assms by (auto simp: substrateEntity_def Let_def split: option.splits)

text \<open>
  C8, as the code has it. Every substrate-linked network persisted after the EVM step was
  built in this run from a feed record that links a chain of the store, and it carries
  the testnet flag of that chain (whatever the record says) and, as its name, the name
  of the record when the record has a non-empty one, the name of the chain otherwise.
\<close>

theorem linked_network_inherits_testnet_and_falls_back_to_chain_name:
  assumes "map_of (evmNetworks (updateEvmNetworksFromGithub h rm sh st)) i = Some n"
    and "n_substrateChain n \<noteq> None"
  shows "\<exists>g k c. g \<in> set (githubEvmNetworks sh) \<and> gn_substrateChainId g = Some k \<and>
           map_of (chains st) k = Some c \<and> n_substrateChain n = Some (c_id c) \<and>
           n_isTestnet n = c_isTestnet c \<and>
           n_name n = (if truthyStr (gn_name g) then gn_name g else c_name c)"
proof -
  have "find (\<lambda>n. n_id n = Some i) (rev (evmNetworkUpdates h rm sh st)) = Some n"
    using assms(1) by (rule step_rows_saved)
  then have "n \<in> set (evmNetworkUpdates h rm sh st)"
    by (auto dest: find_Some_mem)
  then obtain e where e: "e \<in> set (evmNetworkEntities st (githubEvmNetworks sh))"
    and n: "savedEntity h (githubEvmNetworks sh) (probeEvmNetwork rm e) = Some n"
    using in_evmNetworkUpdates by blast
  have same: "n_substrateChain n = n_substrateChain e" "n_isTestnet n = n_isTestnet e"
    "n_name n = n_name e"
    using savedEntity_fields(3,4,5) [OF n] by (simp_all add: probe_keeps_fields)
  then have "n_substrateChain e \<noteq> None" using assms(2) by simp
  with e obtain g where g: "g \<in> set (githubEvmNetworks sh)" "substrateEntity st g = Some e"
    using entity_origin by blast
  from substrateEntity_fields [OF g(2)]
  obtain k c where "gn_substrateChainId g = Some k" "map_of (chains st) k = Some c"
    "n_substrateChain e = Some (c_id c)" "n_isTestnet e = c_isTestnet c"
    "n_name e = (if truthyStr (gn_name g) then gn_name g else c_name c)"
    by blast
  with g(1) same show ?thesis
    by (intro exI [of _ g] exI [of _ k] exI [of _ c]) simp
qed

lemma moonbeam_row:
  "map_of (evmNetworks (updateEvmNetworksFromGithub exHelpers splitRemote moonbeamFeed moonbeamStore)) ''1'' =
     Some (newEvmNetwork
             \<lparr>n_id := Some ''1'', n_name := Some ''Moonbeam EVM'',
              n_rpcs := [\<lparr>e_url = ''https://b'', e_isHealthy = True\<rparr>], n_isHealthy := True,
              n_substrateChain := Some ''moonbeam''\<rparr>)"
proof -
  have one: "toString10 1 = ''1''"
    by (simp add: toString10_def digits10.simps)
  have ents: "evmNetworkEntities moonbeamStore (githubEvmNetworks moonbeamFeed) =
      [newEvmNetwork\<lparr>n_name := Some ''Moonbeam EVM'',
         n_rpcs := [\<lparr>e_url = ''https://b'', e_isHealthy = False\<rparr>],
         n_substrateChain := Some ''moonbeam''\<rparr>]"
    by (simp add: evmNetworkEntities_def Let_def moonbeamFeed_def moonbeamNetworkRecord_def
        isStandaloneEvmNetwork_def isSubstrateEvmNetwork_def List.map_filter_simps
        substrateEntity_def findEvmNetworkBySubstrateChain_def moonbeamStore_def moonbeamChain_def
        newChain_def newEvmNetwork_def newEthereumRpcs_def truthyStr_def orFalse_def)
  have ups: "evmNetworkUpdates exHelpers splitRemote moonbeamFeed moonbeamStore =
      [newEvmNetwork
             \<lparr>n_id := Some ''1'', n_name := Some ''Moonbeam EVM'',
              n_rpcs := [\<lparr>e_url = ''https://b'', e_isHealthy = True\<rparr>], n_isHealthy := True,
              n_substrateChain := Some ''moonbeam''\<rparr>]"
    unfolding evmNetworkUpdates_eq ents
    by (simp add: List.map_filter_simps probeEvmNetwork_def Let_def ethereumIdsOf_def ethereumIdOf_def
        splitRemote_def quietRemote_def one savedEntity_def isStandaloneEvmNetwork_def newEvmNetwork_def)
  show ?thesis
    unfolding map_of_updateEvmNetworks ups
    by (simp add: moonbeamStore_def newEvmNetwork_def)
qed

text \<open>
  C8 as stated fails: the feed record of a network linked to Moonbeam gives the name
  \<open>Moonbeam EVM\<close>; the persisted network keeps that name, not the name of the chain.
\<close>

theorem linked_network_name_counterexample:
  "map_option n_substrateChain
     (map_of (evmNetworks (updateEvmNetworksFromGithub exHelpers splitRemote moonbeamFeed moonbeamStore)) ''1'')
     = Some (Some ''moonbeam'') \<and>
   map_option c_name (map_of (chains moonbeamStore) ''moonbeam'') = Some (Some ''Moonbeam'') \<and>
   map_option n_name
     (map_of (evmNetworks (updateEvmNetworksFromGithub exHelpers splitRemote moonbeamFeed moonbeamStore)) ''1'')
     = Some (Some ''Moonbeam EVM'')"
  unfolding moonbeam_row
  by (simp add: moonbeamStore_def moonbeamChain_def newEvmNetwork_def)

text \<open>
  The amended C8 at the same input: the record says testnet, the chain is a mainnet chain,
  and the persisted network is a mainnet network with the name of the record.
\<close>

theorem linked_network_inherits_testnet_and_falls_back_to_chain_name_witness:
  "\<exists>n. map_of (evmNetworks (updateEvmNetworksFromGithub exHelpers splitRemote moonbeamFeed moonbeamStore)) ''1''
         = Some n \<and>
       n_substrateChain n = Some ''moonbeam'' \<and> \<not> n_isTestnet n \<and> n_name n = Some ''Moonbeam EVM''"
proof -
  let ?n = "newEvmNetwork
             \<lparr>n_id := Some ''1'', n_name := Some ''Moonbeam EVM'',
              n_rpcs := [\<lparr>e_url = ''https://b'', e_isHealthy = True\<rparr>], n_isHealthy := True,
              n_substrateChain := Some ''moonbeam''\<rparr>"
  have linked: "n_substrateChain ?n \<noteq> None" by simp
  from linked_network_inherits_testnet_and_falls_back_to_chain_name [OF moonbeam_row linked]
  obtain g k c where g: "g \<in> set (githubEvmNetworks moonbeamFeed)"
    and k: "gn_substrateChainId g = Some k" "map_of (chains moonbeamStore) k = Some c"
    and f: "n_isTestnet ?n = c_isTestnet c"
      "n_name ?n = (if truthyStr (gn_name g) then gn_name g else c_name c)"
    by blast
  have "g = moonbeamNetworkRecord" using g by (simp add: moonbeamFeed_def)
  then have "k = ''moonbeam''" using k(1) by (simp add: moonbeamNetworkRecord_def)
  then have "c = moonbeamChain" using k(2) by (simp add: moonbeamStore_def)
  then have "\<not> n_isTestnet ?n" using f(1) by (simp add: moonbeamChain_def newChain_def)
  then show ?thesis
    using moonbeam_row by simp
qed





subsection \<open>The contract tokens\<close>


















subsection \<open>The derived tokens of a chain\<close>
























subsection \<open>Two runs in succession\<close>







subsection \<open>The chain step, run again\<close>













end
